theory Spec2Isabelle
  imports Complex_Main "HOL-Library.AList" "HOL-Library.Multiset"
begin

section \<open>JavaScript numbers\<close>

text \<open>
  The TypeScript sources compute with \<open>number\<close>, the IEEE 754 doubles. A number is
  modelled as a real, or one of the three special values that JavaScript arithmetic
  produces: \<open>Infinity\<close>, \<open>-Infinity\<close> and \<open>NaN\<close>. A finite result that is too large
  for a double overflows to an infinity; division by zero, arithmetic on the special values
  and comparisons with \<open>NaN\<close> are as in JavaScript. Rounding of finite results to 53 bits
  and the sign of zero (a zero divisor counts as \<open>+0\<close>) are outside the model.
\<close>

datatype jsnum = Fin real | PInf | NInf | NaN

text \<open>The largest double is \<open>2^1024 - 2^971\<close>; a result whose magnitude reaches
  \<open>2^1024 - 2^970\<close> is rounded to an infinity.\<close>

definition overflow_bound :: real where
  "overflow_bound = 2 ^ 1024 - 2 ^ 970"

definition fin :: "real \<Rightarrow> jsnum" where
  "fin r = (if overflow_bound \<le> r then PInf else if r \<le> - overflow_bound then NInf else Fin r)"

fun jneg :: "jsnum \<Rightarrow> jsnum" where
  "jneg (Fin a) = Fin (- a)"
| "jneg PInf = NInf"
| "jneg NInf = PInf"
| "jneg NaN = NaN"

fun jadd :: "jsnum \<Rightarrow> jsnum \<Rightarrow> jsnum" where
  "jadd (Fin a) (Fin b) = fin (a + b)"
| "jadd (Fin a) PInf = PInf"
| "jadd (Fin a) NInf = NInf"
| "jadd PInf (Fin b) = PInf"
| "jadd PInf PInf = PInf"
| "jadd PInf NInf = NaN"
| "jadd NInf (Fin b) = NInf"
| "jadd NInf PInf = NaN"
| "jadd NInf NInf = NInf"
| "jadd NaN y = NaN"
| "jadd x NaN = NaN"

definition jsub :: "jsnum \<Rightarrow> jsnum \<Rightarrow> jsnum" where
  "jsub x y = jadd x (jneg y)"

fun jmul :: "jsnum \<Rightarrow> jsnum \<Rightarrow> jsnum" where
  "jmul (Fin a) (Fin b) = fin (a * b)"
| "jmul (Fin a) PInf = (if a = 0 then NaN else if 0 < a then PInf else NInf)"
| "jmul (Fin a) NInf = (if a = 0 then NaN else if 0 < a then NInf else PInf)"
| "jmul PInf (Fin b) = (if b = 0 then NaN else if 0 < b then PInf else NInf)"
| "jmul NInf (Fin b) = (if b = 0 then NaN else if 0 < b then NInf else PInf)"
| "jmul PInf PInf = PInf"
| "jmul PInf NInf = NInf"
| "jmul NInf PInf = NInf"
| "jmul NInf NInf = PInf"
| "jmul NaN y = NaN"
| "jmul x NaN = NaN"

fun jdiv :: "jsnum \<Rightarrow> jsnum \<Rightarrow> jsnum" where
  "jdiv (Fin a) (Fin b) =
     (if b = 0 then (if a = 0 then NaN else if 0 < a then PInf else NInf) else fin (a / b))"
| "jdiv (Fin a) PInf = Fin 0"
| "jdiv (Fin a) NInf = Fin 0"
| "jdiv PInf (Fin b) = (if 0 \<le> b then PInf else NInf)"
| "jdiv NInf (Fin b) = (if 0 \<le> b then NInf else PInf)"
| "jdiv PInf PInf = NaN"
| "jdiv PInf NInf = NaN"
| "jdiv NInf PInf = NaN"
| "jdiv NInf NInf = NaN"
| "jdiv NaN y = NaN"
| "jdiv x NaN = NaN"

text \<open>The comparison operators: every comparison with \<open>NaN\<close> is false.\<close>

fun jlt :: "jsnum \<Rightarrow> jsnum \<Rightarrow> bool" where
  "jlt (Fin a) (Fin b) = (a < b)"
| "jlt (Fin a) PInf = True"
| "jlt (Fin a) NInf = False"
| "jlt PInf y = False"
| "jlt NInf (Fin b) = True"
| "jlt NInf PInf = True"
| "jlt NInf NInf = False"
| "jlt NaN y = False"
| "jlt x NaN = False"

fun jle :: "jsnum \<Rightarrow> jsnum \<Rightarrow> bool" where
  "jle (Fin a) (Fin b) = (a \<le> b)"
| "jle (Fin a) PInf = True"
| "jle (Fin a) NInf = False"
| "jle PInf (Fin b) = False"
| "jle PInf PInf = True"
| "jle PInf NInf = False"
| "jle NInf (Fin b) = True"
| "jle NInf PInf = True"
| "jle NInf NInf = True"
| "jle NaN y = False"
| "jle x NaN = False"

definition jgt :: "jsnum \<Rightarrow> jsnum \<Rightarrow> bool" where
  "jgt x y = jlt y x"

definition jge :: "jsnum \<Rightarrow> jsnum \<Rightarrow> bool" where
  "jge x y = jle y x"

text \<open>\<open>Math.max\<close>, \<open>Math.min\<close> (two arguments, and spread over an array),
  \<open>Math.abs\<close>, \<open>Math.sqrt\<close>, \<open>Math.pow(x, 2)\<close> and \<open>Math.round\<close>.\<close>

fun is_nan :: "jsnum \<Rightarrow> bool" where
  "is_nan NaN = True"
| "is_nan x = False"

fun is_fin :: "jsnum \<Rightarrow> bool" where
  "is_fin (Fin a) = True"
| "is_fin x = False"

definition math_max :: "jsnum \<Rightarrow> jsnum \<Rightarrow> jsnum" where
  "math_max x y = (if is_nan x \<or> is_nan y then NaN else if jlt x y then y else x)"

definition math_min :: "jsnum \<Rightarrow> jsnum \<Rightarrow> jsnum" where
  "math_min x y = (if is_nan x \<or> is_nan y then NaN else if jlt y x then y else x)"

definition math_max_of :: "jsnum list \<Rightarrow> jsnum" where
  "math_max_of xs = foldl math_max NInf xs"

definition math_min_of :: "jsnum list \<Rightarrow> jsnum" where
  "math_min_of xs = foldl math_min PInf xs"

fun math_abs :: "jsnum \<Rightarrow> jsnum" where
  "math_abs (Fin a) = Fin \<bar>a\<bar>"
| "math_abs PInf = PInf"
| "math_abs NInf = PInf"
| "math_abs NaN = NaN"

fun math_sqrt :: "jsnum \<Rightarrow> jsnum" where
  "math_sqrt (Fin a) = (if a < 0 then NaN else Fin (sqrt a))"
| "math_sqrt PInf = PInf"
| "math_sqrt NInf = NaN"
| "math_sqrt NaN = NaN"

fun math_pow2 :: "jsnum \<Rightarrow> jsnum" where
  "math_pow2 (Fin a) = fin (a * a)"
| "math_pow2 PInf = PInf"
| "math_pow2 NInf = PInf"
| "math_pow2 NaN = NaN"

fun math_round :: "jsnum \<Rightarrow> jsnum" where
  "math_round (Fin a) = Fin (of_int \<lfloor>a + 1 / 2\<rfloor>)"
| "math_round x = x"

text \<open>Truthiness of a number: \<open>0\<close> and \<open>NaN\<close> are falsy.\<close>

fun falsy :: "jsnum \<Rightarrow> bool" where
  "falsy (Fin a) = (a = 0)"
| "falsy NaN = True"
| "falsy x = False"

section \<open>Arrays\<close>

text \<open>\<open>Array.prototype.slice(start, stop)\<close> with JavaScript's treatment of negative
  and out-of-range indices, and \<open>slice(start)\<close>.\<close>

definition slice :: "int \<Rightarrow> int \<Rightarrow> 'a list \<Rightarrow> 'a list" where
  "slice start stop xs =
     (let len = int (length xs);
          k = (if start < 0 then max (len + start) 0 else min start len);
          final = (if stop < 0 then max (len + stop) 0 else min stop len)
      in take (nat (final - k)) (drop (nat k) xs))"

definition slice_from :: "int \<Rightarrow> 'a list \<Rightarrow> 'a list" where
  "slice_from start xs = slice start (int (length xs)) xs"

text \<open>\<open>Array.prototype.sort(cmp)\<close> is a stable sort: \<open>x\<close> is moved behind \<open>y\<close>
  only where \<open>cmp(x, y) > 0\<close>. It is modelled by a stable insertion sort; the function
  returns the sorted contents.\<close>

fun insert_by :: "('a \<Rightarrow> 'a \<Rightarrow> jsnum) \<Rightarrow> 'a \<Rightarrow> 'a list \<Rightarrow> 'a list" where
  "insert_by cmp x [] = [x]"
| "insert_by cmp x (y # ys) =
     (if jgt (cmp x y) (Fin 0) then y # insert_by cmp x ys else x # y # ys)"

definition array_sort :: "('a \<Rightarrow> 'a \<Rightarrow> jsnum) \<Rightarrow> 'a list \<Rightarrow> 'a list" where
  "array_sort cmp xs = foldr (insert_by cmp) xs []"

section \<open>Template literals\<close>

text \<open>A template literal is kept as the list of its pieces: literal text, a number converted
  by \<open>ToString\<close>, and a number converted by \<open>toFixed(k)\<close>. The conversion of a number
  to its decimal digits is left to the JavaScript runtime.\<close>

datatype piece = Str string | Num jsnum | Fixed nat jsnum

type_synonym template = "piece list"

fun join :: "template \<Rightarrow> template list \<Rightarrow> template" where
  "join sep [] = []"
| "join sep [p] = p"
| "join sep (p # q # ps) = p @ sep @ join sep (q # ps)"

section \<open>The pattern analyzer (VCPDetector)\<close>

text \<open>\<open>date\<close> is the value of \<open>getTime()\<close>, in milliseconds, of a valid \<open>Date\<close>.\<close>

record HistoricalDataPoint =
  date :: int
  "open" :: jsnum
  high :: jsnum
  low :: jsnum
  close :: jsnum
  volume :: jsnum

record EntryPoint =
  type :: string
  price :: jsnum
  confidence :: jsnum
  ep_description :: string

record VCPResult =
  hasPattern :: bool
  score :: jsnum
  baseCount :: nat
  volatilityContraction :: jsnum
  priceTightness :: jsnum
  volumeDryUp :: bool
  breakoutPotential :: jsnum
  entryPoints :: "EntryPoint list"
  description :: template

record Base =
  b_start :: nat
  b_end :: nat
  depth :: jsnum
  duration :: nat

datatype trend = Decreasing | Increasing | Stable

record Volatility =
  contraction :: jsnum
  v_trend :: trend

record Scored =
  s_score :: jsnum
  s_description :: string

record VolumeAnalysis =
  dryUp :: bool
  va_trend :: trend
  va_description :: string

text \<open>\<open>xs.reduce((sum, d) => sum + f(d), 0)\<close>\<close>

definition sum_of :: "('a \<Rightarrow> jsnum) \<Rightarrow> 'a list \<Rightarrow> jsnum" where
  "sum_of f xs = foldl (\<lambda>sum d. jadd sum (f d)) (Fin 0) xs"

definition len :: "'a list \<Rightarrow> jsnum" where
  "len xs = Fin (real (length xs))"

definition checkUptrend :: "HistoricalDataPoint list \<Rightarrow> bool" where
  "checkUptrend data =
     (if length data < 50 then False
      else let recent = slice_from (- 20) data;
               older = slice (- 50) (- 30) data;
               recentAvg = jdiv (sum_of close recent) (len recent);
               olderAvg = jdiv (sum_of close older) (len older)
           in jgt recentAvg (jmul olderAvg (Fin 1.05)))"

text \<open>The loop of \<open>findBases\<close>: \<open>for (let i = 10; i < data.length - 10; i++)\<close>.\<close>

function findBases_loop ::
  "HistoricalDataPoint list \<Rightarrow> nat \<Rightarrow> Base list \<Rightarrow> Base list" where
  "findBases_loop data i bases =
     (if int i < int (length data) - 10 then
        (let window = slice (int i - 10) (int i + 10) data;
             hi = math_max_of (map high window);
             lo = math_min_of (map low window);
             range = jsub hi lo;
             avgPrice = jdiv (sum_of close window) (len window)
         in findBases_loop data (i + 1)
              (if jlt (jdiv range avgPrice) (Fin 0.08)
               then bases @ [\<lparr>b_start = i - 10, b_end = i + 10,
                               depth = jdiv range avgPrice, duration = 20\<rparr>]
               else bases))
      else bases)"
  by pat_completeness auto
termination
  by (relation "measure (\<lambda>(data, i, bases). length data - i)") auto

declare findBases_loop.simps [simp del]

definition findBases :: "HistoricalDataPoint list \<Rightarrow> Base list" where
  "findBases data = findBases_loop data 10 []"

text \<open>The returns of consecutive closes:
  \<open>for (let i = 1; i < recent.length; i++) returns.push((recent[i].close - recent[i-1].close) / recent[i-1].close)\<close>.\<close>

fun returns_of :: "HistoricalDataPoint list \<Rightarrow> jsnum list" where
  "returns_of (p # q # ps) = jdiv (jsub (close q) (close p)) (close p) # returns_of (q # ps)"
| "returns_of ps = []"

definition volatility_of :: "HistoricalDataPoint list \<Rightarrow> int \<Rightarrow> jsnum" where
  "volatility_of data period =
     (let recent = slice_from (- period) data
      in if length recent < 2 then Fin 0
         else let returns = returns_of recent;
                  mean = jdiv (sum_of (\<lambda>r. r) returns) (len returns);
                  variance = jdiv (sum_of (\<lambda>r. math_pow2 (jsub r mean)) returns) (len returns)
              in jmul (math_sqrt variance) (math_sqrt (Fin 252)))"

text \<open>The variance that the callback above computes from the returns.\<close>

definition variance_of :: "jsnum list \<Rightarrow> jsnum" where
  "variance_of returns =
     jdiv (sum_of (\<lambda>r. math_pow2 (jsub r (jdiv (sum_of (\<lambda>r. r) returns) (len returns)))) returns)
          (len returns)"

definition calculateVolatilityContraction :: "HistoricalDataPoint list \<Rightarrow> Volatility" where
  "calculateVolatilityContraction data =
     (let longVol = volatility_of data 20;
          mediumVol = volatility_of data 10;
          shortVol = volatility_of data 5;
          contraction = (if jgt longVol (Fin 0)
                         then jmul (jsub (Fin 1) (jdiv shortVol longVol)) (Fin 100)
                         else Fin 0);
          trend = (if jlt shortVol (jmul mediumVol (Fin 0.8)) \<and> jlt mediumVol (jmul longVol (Fin 0.8))
                   then Decreasing
                   else if jgt shortVol (jmul mediumVol (Fin 1.2)) \<and> jgt mediumVol (jmul longVol (Fin 1.2))
                   then Increasing
                   else Stable)
      in \<lparr>contraction = math_max (Fin 0) contraction, v_trend = trend\<rparr>)"

definition calculatePriceTightness :: "HistoricalDataPoint list \<Rightarrow> Scored" where
  "calculatePriceTightness data =
     (let recent = slice_from (- 10) data
      in if length recent < 5 then \<lparr>s_score = Fin 0, s_description = ''Insufficient data''\<rparr>
         else let hi = math_max_of (map high recent);
                  lo = math_min_of (map low recent);
                  avgPrice = jdiv (sum_of close recent) (len recent);
                  range = jsub hi lo;
                  tightness = jmul (jsub (Fin 1) (jdiv range avgPrice)) (Fin 100)
              in if jgt tightness (Fin 85)
                 then \<lparr>s_score = Fin 90, s_description = ''Very tight price action''\<rparr>
                 else if jgt tightness (Fin 70)
                 then \<lparr>s_score = Fin 75, s_description = ''Tight price action''\<rparr>
                 else if jgt tightness (Fin 50)
                 then \<lparr>s_score = Fin 50, s_description = ''Moderate price action''\<rparr>
                 else \<lparr>s_score = Fin 25, s_description = ''Loose price action''\<rparr>)"

definition analyzeVolume :: "HistoricalDataPoint list \<Rightarrow> VolumeAnalysis" where
  "analyzeVolume data =
     (let recent = slice_from (- 20) data;
          older = slice (- 40) (- 20) data
      in if length recent = 0 \<or> length older = 0
         then \<lparr>dryUp = False, va_trend = Stable, va_description = ''Insufficient data''\<rparr>
         else let recentAvgVol = jdiv (sum_of volume recent) (len recent);
                  olderAvgVol = jdiv (sum_of volume older) (len older);
                  volumeRatio = jdiv recentAvgVol olderAvgVol;
                  trend = (if jlt volumeRatio (Fin 0.7) then Decreasing
                           else if jgt volumeRatio (Fin 1.3) then Increasing
                           else Stable)
              in \<lparr>dryUp = jlt volumeRatio (Fin 0.7), va_trend = trend,
                  va_description = ''Volume '' @
                    (if trend = Decreasing then ''drying up''
                     else if trend = Increasing then ''increasing'' else ''stable'')\<rparr>)"

definition assessBreakoutPotential :: "HistoricalDataPoint list \<Rightarrow> Scored" where
  "assessBreakoutPotential data =
     (let recent = slice_from (- 10) data
      in if length recent < 5 then \<lparr>s_score = Fin 0, s_description = ''Insufficient data''\<rparr>
         else let currentPrice = close (recent ! (length recent - 1));
                  resistance = math_max_of (map high (slice 0 (- 1) recent));
                  support = math_min_of (map low (slice 0 (- 1) recent));
                  distanceToResistance = jdiv (jsub resistance currentPrice) currentPrice;
                  range = jsub resistance support;
                  position = jdiv (jsub currentPrice support) range
              in if jlt distanceToResistance (Fin 0.02) \<and> jgt position (Fin 0.7)
                 then \<lparr>s_score = Fin 85, s_description = ''Near resistance, high breakout potential''\<rparr>
                 else if jlt distanceToResistance (Fin 0.05) \<and> jgt position (Fin 0.6)
                 then \<lparr>s_score = Fin 70,
                       s_description = ''Approaching resistance, good breakout potential''\<rparr>
                 else if jgt position (Fin 0.5)
                 then \<lparr>s_score = Fin 50,
                       s_description = ''In upper range, moderate breakout potential''\<rparr>
                 else \<lparr>s_score = Fin 30,
                       s_description = ''In lower range, low breakout potential''\<rparr>)"

definition findEntryPoints :: "HistoricalDataPoint list \<Rightarrow> EntryPoint list" where
  "findEntryPoints data =
     (let recent = slice_from (- 20) data
      in if length recent < 10 then []
         else let currentPrice = close (recent ! (length recent - 1));
                  resistance = math_max_of (map high (slice 0 (- 1) recent));
                  support = math_min_of (map low (slice 0 (- 1) recent));
                  entryPoints1 =
                    (if jgt resistance (jmul currentPrice (Fin 1.01))
                     then [\<lparr>type = ''breakout'', price = jmul resistance (Fin 1.01),
                            confidence = Fin 75, ep_description = ''Breakout above resistance''\<rparr>]
                     else []);
                  entryPoints2 = entryPoints1 @
                    [\<lparr>type = ''pivot'', price = currentPrice, confidence = Fin 60,
                      ep_description = ''Pivot point at current level''\<rparr>];
                  entryPoints3 = entryPoints2 @
                    (if jlt support (jmul currentPrice (Fin 0.98))
                     then [\<lparr>type = ''support'', price = jmul support (Fin 0.99),
                            confidence = Fin 45, ep_description = ''Support level bounce''\<rparr>]
                     else [])
              in array_sort (\<lambda>a b. jsub (confidence b) (confidence a)) entryPoints3)"

definition calculateVCPScore ::
  "bool \<Rightarrow> Base list \<Rightarrow> Volatility \<Rightarrow> Scored \<Rightarrow> VolumeAnalysis \<Rightarrow> Scored \<Rightarrow> jsnum" where
  "calculateVCPScore uptrend bases volatility tightness volumeAnalysis breakout =
     (let score0 = Fin 0;
          score1 = (if uptrend then jadd score0 (Fin 20) else score0);
          baseScore = math_min (Fin 25) (jmul (len bases) (Fin 8));
          score2 = jadd score1 baseScore;
          score3 = jadd score2 (math_min (Fin 20) (jmul (contraction volatility) (Fin 0.4)));
          score4 = jadd score3 (jmul (s_score tightness) (Fin 0.15));
          score5 = (if dryUp volumeAnalysis then jadd score4 (Fin 10) else score4);
          score6 = jadd score5 (jmul (s_score breakout) (Fin 0.1))
      in math_min (Fin 100) (math_round score6))"

definition generateDescription ::
  "bool \<Rightarrow> jsnum \<Rightarrow> Base list \<Rightarrow> Volatility \<Rightarrow> Scored \<Rightarrow> VolumeAnalysis \<Rightarrow> Scored \<Rightarrow> template" where
  "generateDescription hasPattern' score' bases volatility tightness volumeAnalysis breakout =
     (if \<not> hasPattern'
      then [Str ''No VCP pattern detected. Stock does not meet the criteria for Volatility Contraction Pattern.'']
      else join [Str '' '']
        [[Str ''VCP pattern detected with '', Num score', Str ''% confidence.''],
         [Str ''Found '', Num (len bases), Str '' base formations.''],
         [Str ''Volatility contraction: '', Fixed 1 (contraction volatility), Str ''%.''],
         [Str ''Price action: '', Str (s_description tightness), Str ''.''],
         [Str ''Volume: '', Str (va_description volumeAnalysis), Str ''.''],
         [Str ''Breakout potential: '', Str (s_description breakout), Str ''.'']])"

definition by_date :: "HistoricalDataPoint \<Rightarrow> HistoricalDataPoint \<Rightarrow> jsnum" where
  "by_date a b = Fin (real_of_int (date a - date b))"

text \<open>
  \<open>analyzeVCP\<close> receives a reference to the caller's array. The store holds the arrays of
  price points that exist, addressed by their position; \<open>[...data]\<close> and \<open>slice\<close>
  allocate a new array, \<open>sort\<close> rearranges the array it is called on in place. The price
  points themselves are never assigned to.
\<close>

type_synonym store = "HistoricalDataPoint list list"

definition array_spread :: "store \<Rightarrow> nat \<Rightarrow> nat \<times> store" where
  "array_spread h a = (length h, h @ [h ! a])"

definition array_sort_in_place ::
  "(HistoricalDataPoint \<Rightarrow> HistoricalDataPoint \<Rightarrow> jsnum) \<Rightarrow> store \<Rightarrow> nat \<Rightarrow> nat \<times> store" where
  "array_sort_in_place cmp h a = (a, h[a := array_sort cmp (h ! a)])"

definition array_slice_from :: "int \<Rightarrow> store \<Rightarrow> nat \<Rightarrow> nat \<times> store" where
  "array_slice_from start h a = (length h, h @ [slice_from start (h ! a)])"

definition analyzeVCP_store :: "store \<Rightarrow> nat \<Rightarrow> VCPResult \<times> store" where
  "analyzeVCP_store h data =
     (if length (h ! data) < 50
      then (\<lparr>hasPattern = False, score = Fin 0, baseCount = 0, volatilityContraction = Fin 0,
             priceTightness = Fin 0, volumeDryUp = False, breakoutPotential = Fin 0,
             entryPoints = [], description = [Str ''Insufficient data for analysis'']\<rparr>, h)
      else let (copy, h1) = array_spread h data;
               (sortedData, h2) = array_sort_in_place by_date h1 copy;
               (recentData, h3) = array_slice_from (- 100) h2 sortedData;
               uptrend = checkUptrend (h3 ! recentData);
               bases = findBases (h3 ! recentData);
               volatility = calculateVolatilityContraction (h3 ! recentData);
               tightness = calculatePriceTightness (h3 ! recentData);
               volumeAnalysis = analyzeVolume (h3 ! recentData);
               breakout = assessBreakoutPotential (h3 ! recentData);
               entryPoints' = findEntryPoints (h3 ! recentData);
               score' = calculateVCPScore uptrend bases volatility tightness volumeAnalysis breakout;
               hasPattern' = jgt score' (Fin 60)
           in (\<lparr>hasPattern = hasPattern', score = score', baseCount = length bases,
                 volatilityContraction = contraction volatility,
                 priceTightness = s_score tightness,
                 volumeDryUp = dryUp volumeAnalysis,
                 breakoutPotential = s_score breakout,
                 entryPoints = entryPoints',
                 description = generateDescription hasPattern' score' bases volatility tightness
                                 volumeAnalysis breakout\<rparr>, h3))"

text \<open>The value returned for an array with the contents \<open>data\<close>.\<close>

definition analyzeVCP :: "HistoricalDataPoint list \<Rightarrow> VCPResult" where
  "analyzeVCP data = fst (analyzeVCP_store [data] 0)"

section \<open>The signal strategies (EntryMonitor)\<close>

text \<open>The fields of a stored \<open>stockScan\<close> row that the monitor reads or writes, with the
  included \<open>scan\<close> and \<open>scanConfig\<close> relations flattened.\<close>

record StockScan =
  ss_id :: string
  ss_symbol :: string
  ss_name :: string
  hasVcpPattern :: bool
  vcpScore :: jsnum
  entrySignal :: bool
  lastPrice :: jsnum
  ss_volume :: jsnum
  scanConfig_name :: string
  scanConfig_userId :: string
  scan_etfSymbol :: string

record EntrySignal =
  symbol :: string
  name :: string
  signalType :: string
  sig_confidence :: jsnum
  currentPrice :: jsnum
  targetPrice :: jsnum
  stopLoss :: jsnum
  riskRewardRatio :: jsnum
  timeframe :: string
  reason :: template
  timestamp :: int

text \<open>Each strategy takes the value of \<open>new Date()\<close> as its last argument.\<close>

definition checkBreakoutSignal ::
  "StockScan \<Rightarrow> HistoricalDataPoint list \<Rightarrow> string \<Rightarrow> int \<Rightarrow> EntrySignal option" where
  "checkBreakoutSignal stockScan data tf now =
     (if length data < 20 then None
      else let recent = slice_from (- 10) data;
               currentPrice' = close (recent ! (length recent - 1));
               resistance = math_max_of (map high (slice 0 (- 1) recent));
               breakoutThreshold = jmul resistance (Fin 1.01)
           in if jge currentPrice' breakoutThreshold
              then (let volume' = volume (recent ! (length recent - 1));
                        avgVolume = jdiv (sum_of volume (slice 0 (- 1) recent)) (jsub (len recent) (Fin 1));
                        volumeRatio = jdiv volume' avgVolume;
                        confidence' = math_min (Fin 95)
                          (jadd (Fin 70) (if jgt volumeRatio (Fin 1.5) then Fin 15
                                          else if jgt volumeRatio (Fin 1.2) then Fin 10 else Fin 5))
                    in Some \<lparr>symbol = ss_symbol stockScan, name = ss_name stockScan,
                         signalType = ''breakout'', sig_confidence = confidence',
                         currentPrice = currentPrice',
                         targetPrice = jmul currentPrice' (Fin 1.08),
                         stopLoss = jmul resistance (Fin 0.98),
                         riskRewardRatio =
                           jdiv (jsub (jmul currentPrice' (Fin 1.08)) currentPrice')
                                (jsub currentPrice' (jmul resistance (Fin 0.98))),
                         timeframe = tf,
                         reason = [Str ''Breakout above resistance at $'', Fixed 2 resistance,
                                   Str '' with '', Fixed 1 volumeRatio, Str ''x volume''],
                         timestamp = now\<rparr>)
              else None)"

definition checkPivotSignal ::
  "StockScan \<Rightarrow> HistoricalDataPoint list \<Rightarrow> string \<Rightarrow> int \<Rightarrow> EntrySignal option" where
  "checkPivotSignal stockScan data tf now =
     (if length data < 15 then None
      else let recent = slice_from (- 8) data;
               currentPrice' = close (recent ! (length recent - 1));
               hi = math_max_of (map high recent);
               lo = math_min_of (map low recent);
               cl = close (recent ! (length recent - 1));
               pivot = jdiv (jadd (jadd hi lo) cl) (Fin 3);
               support1 = jsub (jmul (Fin 2) pivot) hi;
               resistance1 = jsub (jmul (Fin 2) pivot) lo;
               distanceToPivot = jdiv (math_abs (jsub currentPrice' pivot)) pivot
           in if jlt distanceToPivot (Fin 0.01) \<and> jgt currentPrice' pivot
              then (let confidence' = math_min (Fin 85)
                          (jadd (Fin 65) (jmul (jsub (Fin 1) (jmul distanceToPivot (Fin 100))) (Fin 20)))
                    in Some \<lparr>symbol = ss_symbol stockScan, name = ss_name stockScan,
                         signalType = ''pivot'', sig_confidence = confidence',
                         currentPrice = currentPrice',
                         targetPrice = resistance1,
                         stopLoss = support1,
                         riskRewardRatio =
                           jdiv (jsub resistance1 currentPrice') (jsub currentPrice' support1),
                         timeframe = tf,
                         reason = [Str ''Price at pivot point $'', Fixed 2 pivot,
                                   Str '', showing upward momentum''],
                         timestamp = now\<rparr>)
              else None)"

definition checkSupportSignal ::
  "StockScan \<Rightarrow> HistoricalDataPoint list \<Rightarrow> string \<Rightarrow> int \<Rightarrow> EntrySignal option" where
  "checkSupportSignal stockScan data tf now =
     (if length data < 20 then None
      else let recent = slice_from (- 15) data;
               currentPrice' = close (recent ! (length recent - 1));
               support = math_min_of (map low (slice 0 (- 5) recent));
               bounceThreshold = jmul support (Fin 1.02)
           in if jle currentPrice' bounceThreshold \<and> jge currentPrice' support
              then (let prevPrice = (if falsy (close (recent ! (length recent - 2)))
                                     then currentPrice'
                                     else close (recent ! (length recent - 2)));
                        isBouncing = jgt currentPrice' prevPrice
                    in if isBouncing
                       then (let confidence' = math_min (Fin 80)
                                   (jadd (Fin 60)
                                      (jmul (jdiv (jsub currentPrice' support) support) (Fin 1000)))
                             in Some \<lparr>symbol = ss_symbol stockScan, name = ss_name stockScan,
                                  signalType = ''support'', sig_confidence = confidence',
                                  currentPrice = currentPrice',
                                  targetPrice = jmul support (Fin 1.06),
                                  stopLoss = jmul support (Fin 0.97),
                                  riskRewardRatio =
                                    jdiv (jsub (jmul support (Fin 1.06)) currentPrice')
                                         (jsub currentPrice' (jmul support (Fin 0.97))),
                                  timeframe = tf,
                                  reason = [Str ''Bouncing off support level at $'', Fixed 2 support],
                                  timestamp = now\<rparr>)
                       else None)
              else None)"

definition checkVolumeSignal ::
  "StockScan \<Rightarrow> HistoricalDataPoint list \<Rightarrow> string \<Rightarrow> int \<Rightarrow> EntrySignal option" where
  "checkVolumeSignal stockScan data tf now =
     (if length data < 10 then None
      else let recent = slice_from (- 10) data;
               currentPrice' = close (recent ! (length recent - 1));
               currentVolume = volume (recent ! (length recent - 1));
               avgVolume = jdiv (sum_of volume (slice 0 (- 1) recent)) (jsub (len recent) (Fin 1));
               volumeRatio = jdiv currentVolume avgVolume
           in if jgt volumeRatio (Fin 2.0)
              then (let priceChange = jdiv (jsub currentPrice' (close (recent ! (length recent - 2))))
                                           (close (recent ! (length recent - 2)))
                    in if jgt (math_abs priceChange) (Fin 0.01)
                       then (let confidence' = math_min (Fin 90)
                                   (jadd (Fin 70)
                                      (math_min (Fin 20) (jmul (jsub volumeRatio (Fin 2)) (Fin 10))));
                                 isBullish = jgt priceChange (Fin 0)
                             in Some \<lparr>symbol = ss_symbol stockScan, name = ss_name stockScan,
                                  signalType = ''volume_spike'', sig_confidence = confidence',
                                  currentPrice = currentPrice',
                                  targetPrice = (if isBullish then jmul currentPrice' (Fin 1.05)
                                                 else jmul currentPrice' (Fin 0.95)),
                                  stopLoss = (if isBullish then jmul currentPrice' (Fin 0.97)
                                              else jmul currentPrice' (Fin 1.03)),
                                  riskRewardRatio =
                                    (if isBullish
                                     then jdiv (jsub (jmul currentPrice' (Fin 1.05)) currentPrice')
                                               (jsub currentPrice' (jmul currentPrice' (Fin 0.97)))
                                     else jdiv (jsub currentPrice' (jmul currentPrice' (Fin 0.95)))
                                               (jsub (jmul currentPrice' (Fin 1.03)) currentPrice')),
                                  timeframe = tf,
                                  reason = [Str ''Volume spike of '', Fixed 1 volumeRatio,
                                            Str ''x average with '',
                                            Str (if isBullish then ''bullish'' else ''bearish''),
                                            Str '' price movement''],
                                  timestamp = now\<rparr>)
                       else None)
              else None)"

definition calculateMA :: "HistoricalDataPoint list \<Rightarrow> nat \<Rightarrow> jsnum option" where
  "calculateMA data period =
     (if length data < period then None
      else Some (jdiv (sum_of close (slice_from (- int period) data)) (Fin (real period))))"

definition checkMovingAverageSignal ::
  "StockScan \<Rightarrow> HistoricalDataPoint list \<Rightarrow> string \<Rightarrow> int \<Rightarrow> EntrySignal option" where
  "checkMovingAverageSignal stockScan data tf now =
     (if length data < 50 then None
      else let recent = slice_from (- 20) data;
               currentPrice' = close (recent ! (length recent - 1))
           in case (calculateMA recent 20, calculateMA (slice_from (- 50) data) 50) of
                (Some ma20, Some ma50) \<Rightarrow>
                  if falsy ma20 \<or> falsy ma50 then None
                  else let priceAboveMA20 = jgt currentPrice' ma20;
                           priceAboveMA50 = jgt currentPrice' ma50;
                           ma20AboveMA50 = jgt ma20 ma50
                       in if priceAboveMA20 \<and> priceAboveMA50 \<and> ma20AboveMA50
                          then (let confidence' = math_min (Fin 85)
                                      (jadd (jadd (Fin 65) (if ma20AboveMA50 then Fin 10 else Fin 0))
                                            (if priceAboveMA20 then Fin 5 else Fin 0))
                                in Some \<lparr>symbol = ss_symbol stockScan, name = ss_name stockScan,
                                     signalType = ''moving_average'', sig_confidence = confidence',
                                     currentPrice = currentPrice',
                                     targetPrice = jmul currentPrice' (Fin 1.06),
                                     stopLoss = jmul (math_min ma20 ma50) (Fin 0.98),
                                     riskRewardRatio =
                                       jdiv (jsub (jmul currentPrice' (Fin 1.06)) currentPrice')
                                            (jsub currentPrice' (jmul (math_min ma20 ma50) (Fin 0.98))),
                                     timeframe = tf,
                                     reason = [Str ''Price above both 20-period MA ($'', Fixed 2 ma20,
                                               Str '') and 50-period MA ($'', Fixed 2 ma50, Str '')''],
                                     timestamp = now\<rparr>)
                          else None
              | _ \<Rightarrow> None)"

section \<open>The signal monitor (EntryMonitor)\<close>

record MonitoringConfig =
  checkInterval :: jsnum
  timeframes :: "string list"
  minConfidence :: jsnum
  maxRiskPerTrade :: jsnum
  enableEmailAlerts :: bool

text \<open>\<open>Partial<MonitoringConfig>\<close>: each field is present or absent.\<close>

record PartialConfig =
  p_checkInterval :: "jsnum option"
  p_timeframes :: "string list option"
  p_minConfidence :: "jsnum option"
  p_maxRiskPerTrade :: "jsnum option"
  p_enableEmailAlerts :: "bool option"

record AlertData =
  a_type :: string
  a_symbol :: string
  a_stockName :: string
  a_vcpScore :: jsnum
  a_currentPrice :: jsnum
  a_scanName :: string
  a_etfSymbol :: string
  a_entryPoints :: "(string \<times> jsnum \<times> jsnum) list"

text \<open>A live interval timer of the runtime: its handle, the \<open>stockScanId\<close> that its
  callback has captured, and its period in milliseconds.\<close>

record Timer =
  handle :: nat
  callback_id :: string
  period_ms :: jsnum

text \<open>
  The state that the monitor works on. \<open>monitoringIntervals\<close> is the monitor's
  \<open>Map\<close> from \<open>stockScanId\<close> to timer handle, in insertion order, and \<open>config\<close> its
  configuration. The rest is the environment: the live timers and the supply of fresh
  handles, the \<open>stockScan\<close> table with two switches that make reads and writes fail, the
  market data service (the \<open>historicalData\<close> of the answer of \<open>getStockData\<close>, or
  \<open>None\<close> for \<open>null\<close>), the clock, the email service (a switch that makes it fail,
  and the calls of \<open>sendEntrySignalAlert(userId, alertData)\<close> it has received), and the
  messages given to \<open>console.error\<close>.
\<close>

record System =
  monitoringIntervals :: "(string \<times> nat) list"
  config :: MonitoringConfig
  timers :: "Timer list"
  nextHandle :: nat
  db_stockScan :: "string \<Rightarrow> StockScan option"
  db_read_ok :: bool
  db_write_ok :: bool
  getStockData :: "string \<Rightarrow> HistoricalDataPoint list option"
  clock :: int
  email_ok :: bool
  sent :: "(string \<times> AlertData) list"
  console_errors :: "string list"

definition default_config :: MonitoringConfig where
  "default_config =
     \<lparr>checkInterval = Fin 15, timeframes = [''1h'', ''4h''], minConfidence = Fin 70,
      maxRiskPerTrade = Fin 2, enableEmailAlerts = True\<rparr>"

definition merge_config :: "MonitoringConfig \<Rightarrow> PartialConfig \<Rightarrow> MonitoringConfig" where
  "merge_config c p =
     \<lparr>checkInterval = (case p_checkInterval p of Some v \<Rightarrow> v | None \<Rightarrow> checkInterval c),
      timeframes = (case p_timeframes p of Some v \<Rightarrow> v | None \<Rightarrow> timeframes c),
      minConfidence = (case p_minConfidence p of Some v \<Rightarrow> v | None \<Rightarrow> minConfidence c),
      maxRiskPerTrade = (case p_maxRiskPerTrade p of Some v \<Rightarrow> v | None \<Rightarrow> maxRiskPerTrade c),
      enableEmailAlerts = (case p_enableEmailAlerts p of Some v \<Rightarrow> v | None \<Rightarrow> enableEmailAlerts c)\<rparr>"

definition clearInterval :: "nat \<Rightarrow> System \<Rightarrow> System" where
  "clearInterval h s = s\<lparr>timers := filter (\<lambda>t. handle t \<noteq> h) (timers s)\<rparr>"

definition setInterval :: "string \<Rightarrow> jsnum \<Rightarrow> System \<Rightarrow> nat \<times> System" where
  "setInterval x ms s =
     (nextHandle s,
      s\<lparr>timers := timers s @ [\<lparr>handle = nextHandle s, callback_id = x, period_ms = ms\<rparr>],
        nextHandle := nextHandle s + 1\<rparr>)"

definition stopMonitoring :: "System \<Rightarrow> string \<Rightarrow> System" where
  "stopMonitoring s stockScanId =
     (case map_of (monitoringIntervals s) stockScanId of
        Some interval \<Rightarrow>
          (let s1 = clearInterval interval s
           in s1\<lparr>monitoringIntervals := AList.delete stockScanId (monitoringIntervals s1)\<rparr>)
      | None \<Rightarrow> s)"

definition stopAllMonitoring :: "System \<Rightarrow> System" where
  "stopAllMonitoring s =
     (let s1 = foldl (\<lambda>s' (stockScanId, interval). clearInterval interval s') s (monitoringIntervals s)
      in s1\<lparr>monitoringIntervals := []\<rparr>)"

definition analyzeTimeframe :: "System \<Rightarrow> StockScan \<Rightarrow> string \<Rightarrow> EntrySignal option" where
  "analyzeTimeframe s stockScan tf =
     (case getStockData s (ss_symbol stockScan) of
        None \<Rightarrow> None
      | Some historicalData \<Rightarrow>
          if length historicalData = 0 then None
          else let recentData = slice_from (- 50) historicalData;
                   signals0 = [];
                   signals1 = (case checkBreakoutSignal stockScan recentData tf (clock s) of
                                 Some sg \<Rightarrow> signals0 @ [sg] | None \<Rightarrow> signals0);
                   signals2 = (case checkPivotSignal stockScan recentData tf (clock s) of
                                 Some sg \<Rightarrow> signals1 @ [sg] | None \<Rightarrow> signals1);
                   signals3 = (case checkSupportSignal stockScan recentData tf (clock s) of
                                 Some sg \<Rightarrow> signals2 @ [sg] | None \<Rightarrow> signals2);
                   signals4 = (case checkVolumeSignal stockScan recentData tf (clock s) of
                                 Some sg \<Rightarrow> signals3 @ [sg] | None \<Rightarrow> signals3);
                   signals5 = (case checkMovingAverageSignal stockScan recentData tf (clock s) of
                                 Some sg \<Rightarrow> signals4 @ [sg] | None \<Rightarrow> signals4)
               in (case signals5 of
                     [] \<Rightarrow> None
                   | first # others \<Rightarrow>
                       Some (foldl (\<lambda>best current.
                                      if jgt (sig_confidence current) (sig_confidence best)
                                      then current else best) first others)))"

text \<open>\<open>handleEntrySignal\<close>: an exception of the update or of the email service is caught
  and logged; what was done before it stays done.\<close>

definition handleEntrySignal :: "System \<Rightarrow> StockScan \<Rightarrow> EntrySignal \<Rightarrow> System" where
  "handleEntrySignal s stockScan signal =
     (if \<not> db_write_ok s \<or> db_stockScan s (ss_id stockScan) = None
      then s\<lparr>console_errors := console_errors s @ [''Error handling entry signal:'']\<rparr>
      else let s1 = s\<lparr>db_stockScan := (db_stockScan s)(ss_id stockScan \<mapsto>
                         (the (db_stockScan s (ss_id stockScan)))
                           \<lparr>entrySignal := True, lastPrice := currentPrice signal,
                            ss_volume := jmul (currentPrice signal) (Fin 1000000)\<rparr>)\<rparr>
           in if enableEmailAlerts (config s1)
              then (let alertData =
                          \<lparr>a_type = ''entry_signal'', a_symbol = symbol signal,
                           a_stockName = name signal, a_vcpScore = vcpScore stockScan,
                           a_currentPrice = currentPrice signal,
                           a_scanName = scanConfig_name stockScan,
                           a_etfSymbol = scan_etfSymbol stockScan,
                           a_entryPoints =
                             [(signalType signal, targetPrice signal, sig_confidence signal)]\<rparr>;
                        userId = scanConfig_userId stockScan;
                        s2 = s1\<lparr>sent := sent s1 @ [(userId, alertData)]\<rparr>
                    in if email_ok s2 then s2
                       else s2\<lparr>console_errors :=
                                 console_errors s2 @ [''Error handling entry signal:'']\<rparr>)
              else s1)"

text \<open>The loop of \<open>checkForEntrySignals\<close> over the configured timeframes, left by
  \<open>break\<close> at the first signal that reaches \<open>minConfidence\<close>.\<close>

fun check_timeframes :: "System \<Rightarrow> StockScan \<Rightarrow> string \<Rightarrow> string list \<Rightarrow> System" where
  "check_timeframes s stockScan stockScanId [] = s"
| "check_timeframes s stockScan stockScanId (tf # tfs) =
     (case analyzeTimeframe s stockScan tf of
        Some signal \<Rightarrow>
          if jge (sig_confidence signal) (minConfidence (config s))
          then stopMonitoring (handleEntrySignal s stockScan signal) stockScanId
          else check_timeframes s stockScan stockScanId tfs
      | None \<Rightarrow> check_timeframes s stockScan stockScanId tfs)"

definition checkForEntrySignals :: "System \<Rightarrow> string \<Rightarrow> System" where
  "checkForEntrySignals s stockScanId =
     (if \<not> db_read_ok s
      then s\<lparr>console_errors := console_errors s @ [''Error checking entry signals for '' @ stockScanId @ '':'']\<rparr>
      else case db_stockScan s stockScanId of
             None \<Rightarrow> stopMonitoring s stockScanId
           | Some stockScan \<Rightarrow> check_timeframes s stockScan stockScanId (timeframes (config s)))"

text \<open>What the caller of an \<open>async\<close> method observes: the promise is fulfilled, or it is
  rejected with an error.\<close>

datatype outcome = Fulfilled | Rejected string

text \<open>The \<open>try\<close> block of \<open>startMonitoring\<close>: \<open>Inl\<close> is the error thrown.\<close>

definition startMonitoring_try :: "System \<Rightarrow> string \<Rightarrow> string + System" where
  "startMonitoring_try s stockScanId =
     (if \<not> db_read_ok s then Inl ''database read failed''
      else case db_stockScan s stockScanId of
             None \<Rightarrow> Inl ''Stock scan not found or no VCP pattern detected''
           | Some stockScan \<Rightarrow>
               if \<not> hasVcpPattern stockScan
               then Inl ''Stock scan not found or no VCP pattern detected''
               else let s1 = stopMonitoring s stockScanId;
                        (interval, s2) =
                          setInterval stockScanId
                            (jmul (jmul (checkInterval (config s1)) (Fin 60)) (Fin 1000)) s1;
                        s3 = s2\<lparr>monitoringIntervals :=
                                  AList.update stockScanId interval (monitoringIntervals s2)\<rparr>
                    in Inr (checkForEntrySignals s3 stockScanId))"

definition startMonitoring :: "System \<Rightarrow> string \<Rightarrow> outcome \<times> System" where
  "startMonitoring s stockScanId =
     (case startMonitoring_try s stockScanId of
        Inl error \<Rightarrow>
          (Fulfilled, s\<lparr>console_errors := console_errors s @ [''Error starting monitoring:'']\<rparr>)
      | Inr s' \<Rightarrow> (Fulfilled, s'))"

text \<open>
  \<open>checkForEntrySignals\<close> and \<open>startMonitoring\<close> above are the two methods run from
  their first statement to their last with nothing happening in between. Both are
  \<open>async\<close>: they give up control at every \<open>await\<close> on the store, the market data
  service and the email service, and other calls, timers and checks run meanwhile. A task is
  a call that is suspended at one of these awaits:
  \<^item> \<open>StartAwaitRow\<close>: \<open>startMonitoring\<close>, waiting for \<open>findUnique\<close>;
  \<^item> \<open>AwaitRow\<close>: \<open>checkForEntrySignals\<close>, waiting for \<open>findUnique\<close>;
  \<^item> \<open>AwaitData\<close>: the loop over the timeframes, waiting for \<open>getStockData\<close> for the
    first of the timeframes that are left;
  \<^item> \<open>AwaitUpdate\<close>: \<open>handleEntrySignal\<close> with the signal that was found, waiting for the
    \<open>update\<close> of the row;
  \<^item> \<open>AwaitEmail\<close>: \<open>handleEntrySignal\<close>, waiting for \<open>sendEntrySignalAlert\<close>.
\<close>

datatype task =
    StartAwaitRow string
  | AwaitRow string
  | AwaitData string StockScan "string list"
  | AwaitUpdate string StockScan EntrySignal
  | AwaitEmail string

text \<open>\<open>resume\<close> runs a task from the await it is suspended at to its next await, or to
  its end: the result is the new state and the task as it is suspended again, if it is.
  What the awaited service answers is read off the environment at that moment.\<close>

fun resume :: "System \<Rightarrow> task \<Rightarrow> System \<times> task option" where
  "resume s (StartAwaitRow stockScanId) =
     (if \<not> db_read_ok s
      then (s\<lparr>console_errors := console_errors s @ [''Error starting monitoring:'']\<rparr>, None)
      else case db_stockScan s stockScanId of
             None \<Rightarrow>
               (s\<lparr>console_errors := console_errors s @ [''Error starting monitoring:'']\<rparr>, None)
           | Some stockScan \<Rightarrow>
               if \<not> hasVcpPattern stockScan
               then (s\<lparr>console_errors := console_errors s @ [''Error starting monitoring:'']\<rparr>,
                     None)
               else let s1 = stopMonitoring s stockScanId;
                        (interval, s2) =
                          setInterval stockScanId
                            (jmul (jmul (checkInterval (config s1)) (Fin 60)) (Fin 1000)) s1;
                        s3 = s2\<lparr>monitoringIntervals :=
                                  AList.update stockScanId interval (monitoringIntervals s2)\<rparr>
                    in (s3, Some (AwaitRow stockScanId)))"
| "resume s (AwaitRow stockScanId) =
     (if \<not> db_read_ok s
      then (s\<lparr>console_errors := console_errors s @
                [''Error checking entry signals for '' @ stockScanId @ '':'']\<rparr>, None)
      else case db_stockScan s stockScanId of
             None \<Rightarrow> (stopMonitoring s stockScanId, None)
           | Some stockScan \<Rightarrow>
               (s, if timeframes (config s) = [] then None
                   else Some (AwaitData stockScanId stockScan (timeframes (config s)))))"
| "resume s (AwaitData stockScanId stockScan []) = (s, None)"
| "resume s (AwaitData stockScanId stockScan (tf # tfs)) =
     (case analyzeTimeframe s stockScan tf of
        Some signal \<Rightarrow>
          if jge (sig_confidence signal) (minConfidence (config s))
          then (s, Some (AwaitUpdate stockScanId stockScan signal))
          else (s, if tfs = [] then None else Some (AwaitData stockScanId stockScan tfs))
      | None \<Rightarrow> (s, if tfs = [] then None else Some (AwaitData stockScanId stockScan tfs)))"
| "resume s (AwaitUpdate stockScanId stockScan signal) =
     (if \<not> db_write_ok s \<or> db_stockScan s (ss_id stockScan) = None
      then (stopMonitoring
              (s\<lparr>console_errors := console_errors s @ [''Error handling entry signal:'']\<rparr>)
              stockScanId, None)
      else let s1 = s\<lparr>db_stockScan := (db_stockScan s)(ss_id stockScan \<mapsto>
                         (the (db_stockScan s (ss_id stockScan)))
                           \<lparr>entrySignal := True, lastPrice := currentPrice signal,
                            ss_volume := jmul (currentPrice signal) (Fin 1000000)\<rparr>)\<rparr>
           in if enableEmailAlerts (config s1)
              then (let alertData =
                          \<lparr>a_type = ''entry_signal'', a_symbol = symbol signal,
                           a_stockName = name signal, a_vcpScore = vcpScore stockScan,
                           a_currentPrice = currentPrice signal,
                           a_scanName = scanConfig_name stockScan,
                           a_etfSymbol = scan_etfSymbol stockScan,
                           a_entryPoints =
                             [(signalType signal, targetPrice signal, sig_confidence signal)]\<rparr>;
                        userId = scanConfig_userId stockScan
                    in (s1\<lparr>sent := sent s1 @ [(userId, alertData)]\<rparr>, Some (AwaitEmail stockScanId)))
              else (stopMonitoring s1 stockScanId, None))"
| "resume s (AwaitEmail stockScanId) =
     (stopMonitoring
        (if email_ok s then s
         else s\<lparr>console_errors := console_errors s @ [''Error handling entry signal:'']\<rparr>)
        stockScanId, None)"

text \<open>The instrument that a task works for, and the confidence of the signal that a check
  has found.\<close>

fun task_id :: "task \<Rightarrow> string" where
  "task_id (StartAwaitRow x) = x"
| "task_id (AwaitRow x) = x"
| "task_id (AwaitData x stockScan tfs) = x"
| "task_id (AwaitUpdate x stockScan signal) = x"
| "task_id (AwaitEmail x) = x"

fun found_confidence :: "task \<Rightarrow> jsnum option" where
  "found_confidence (AwaitUpdate x stockScan signal) = Some (sig_confidence signal)"
| "found_confidence t = None"

text \<open>A task run to its end with nothing happening in between.\<close>

fun stage :: "task \<Rightarrow> nat" where
  "stage (StartAwaitRow x) = 4"
| "stage (AwaitRow x) = 3"
| "stage (AwaitData x stockScan tfs) = 2"
| "stage (AwaitUpdate x stockScan signal) = 1"
| "stage (AwaitEmail x) = 0"

fun timeframes_left :: "task \<Rightarrow> nat" where
  "timeframes_left (AwaitData x stockScan tfs) = length tfs"
| "timeframes_left t = 0"

function finish :: "System \<Rightarrow> task \<Rightarrow> System" where
  "finish s t = (case resume s t of (s', None) \<Rightarrow> s' | (s', Some t') \<Rightarrow> finish s' t')"
  by pat_completeness auto
termination
proof (relation "inv_image (less_than <*lex*> less_than) (\<lambda>(s, t). (stage t, timeframes_left t))")
  show "wf (inv_image (less_than <*lex*> less_than) (\<lambda>(s, t). (stage t, timeframes_left t)))"
    by (intro wf_inv_image wf_lex_prod wf_less_than)
next
  fix s t x1 x2 x2a
  assume "(x1, x2) = resume s t" and "x2 = Some x2a"
  then have "resume s t = (x1, Some x2a)" by simp
  then show "((x1, x2a), (s, t))
      \<in> inv_image (less_than <*lex*> less_than) (\<lambda>(s, t). (stage t, timeframes_left t))"
    by (cases "(s, t)" rule: resume.cases)
       (auto simp: Let_def split: if_splits option.splits prod.splits)
qed

declare finish.simps [simp del]

text \<open>\<open>updateConfig\<close> merges the new values into the configuration and restarts every
  active monitor: it stops it and calls \<open>startMonitoring\<close> without awaiting the call, which
  is suspended at its first await. The result is the state after the loop and the ids of
  the calls that are pending.\<close>

definition updateConfig :: "System \<Rightarrow> PartialConfig \<Rightarrow> System \<times> string list" where
  "updateConfig s newConfig =
     (let s1 = s\<lparr>config := merge_config (config s) newConfig\<rparr>;
          activeMonitors = map fst (monitoringIntervals s1)
      in (foldl stopMonitoring s1 activeMonitors, activeMonitors))"

text \<open>
  What can happen to the monitor and the tasks in flight: a call of one of the public
  methods, a live timer firing (its callback calls \<open>checkForEntrySignals\<close> for the id it
  has captured; a cleared timer does not fire), the task at some position being resumed, or
  the environment changing (the stored rows, the market data, the clock, the failure
  switches). The code between two awaits runs without interruption.
\<close>

datatype event =
    StartMonitoring string
  | StopMonitoring string
  | StopAllMonitoring
  | UpdateConfig PartialConfig
  | Fire nat
  | Resume nat
  | Environment "string \<Rightarrow> StockScan option" bool bool
      "string \<Rightarrow> HistoricalDataPoint list option" int bool

type_synonym runtime = "System \<times> task list"

fun step :: "runtime \<Rightarrow> event \<Rightarrow> runtime" where
  "step (s, ts) (StartMonitoring x) = (s, ts @ [StartAwaitRow x])"
| "step (s, ts) (StopMonitoring x) = (stopMonitoring s x, ts)"
| "step (s, ts) StopAllMonitoring = (stopAllMonitoring s, ts)"
| "step (s, ts) (UpdateConfig p) =
     (fst (updateConfig s p), ts @ map StartAwaitRow (snd (updateConfig s p)))"
| "step (s, ts) (Fire h) =
     (case find (\<lambda>t. handle t = h) (timers s) of
        None \<Rightarrow> (s, ts)
      | Some t \<Rightarrow> (s, ts @ [AwaitRow (callback_id t)]))"
| "step (s, ts) (Resume i) =
     (if i < length ts
      then (case resume s (ts ! i) of
              (s', None) \<Rightarrow> (s', take i ts @ drop (Suc i) ts)
            | (s', Some t') \<Rightarrow> (s', ts[i := t']))
      else (s, ts))"
| "step (s, ts) (Environment rows rd wr market t mail) =
     (s\<lparr>db_stockScan := rows, db_read_ok := rd, db_write_ok := wr, getStockData := market,
        clock := t, email_ok := mail\<rparr>, ts)"

definition steps :: "runtime \<Rightarrow> event list \<Rightarrow> runtime" where
  "steps rt es = foldl step rt es"

text \<open>The tasks in flight that work for an instrument.\<close>

definition tasks_for :: "runtime \<Rightarrow> string \<Rightarrow> task list" where
  "tasks_for rt x = filter (\<lambda>t. task_id t = x) (snd rt)"

text \<open>The \<open>WatchEntry\<close> values of an instrument, and its live timers.\<close>

definition watch_entries :: "System \<Rightarrow> string \<Rightarrow> (string \<times> nat) list" where
  "watch_entries s x = filter (\<lambda>e. fst e = x) (monitoringIntervals s)"

definition live_timers :: "System \<Rightarrow> string \<Rightarrow> Timer list" where
  "live_timers s x = filter (\<lambda>t. callback_id t = x) (timers s)"

text \<open>The signal that ends the loop of \<open>checkForEntrySignals\<close>: the best signal of the
  first configured timeframe whose best signal reaches \<open>minConfidence\<close>.\<close>

fun first_qualifying :: "System \<Rightarrow> StockScan \<Rightarrow> string list \<Rightarrow> EntrySignal option" where
  "first_qualifying s stockScan [] = None"
| "first_qualifying s stockScan (tf # tfs) =
     (case analyzeTimeframe s stockScan tf of
        Some signal \<Rightarrow>
          if jge (sig_confidence signal) (minConfidence (config s)) then Some signal
          else first_qualifying s stockScan tfs
      | None \<Rightarrow> first_qualifying s stockScan tfs)"

text \<open>An instrument is idle when it has neither a \<open>WatchEntry\<close> nor a live timer.\<close>

definition idle :: "System \<Rightarrow> string \<Rightarrow> bool" where
  "idle s x \<longleftrightarrow> watch_entries s x = [] \<and> live_timers s x = []"

text \<open>The states that the monitor's operations produce: every live timer is the one
  registered for the id it has captured, the handles of the live timers are distinct and
  were handed out before, and no id is registered twice.\<close>

definition consistent :: "System \<Rightarrow> bool" where
  "consistent s \<longleftrightarrow>
     list_all (\<lambda>t. map_of (monitoringIntervals s) (callback_id t) = Some (handle t)
                    \<and> handle t < nextHandle s) (timers s)
     \<and> distinct (map handle (timers s))
     \<and> distinct (map fst (monitoringIntervals s))"

text \<open>The state in which \<open>startMonitoring\<close> makes its immediate check: monitoring of the
  instrument stopped, a new timer set and registered.\<close>

definition rearm :: "System \<Rightarrow> string \<Rightarrow> System" where
  "rearm s x =
     (let s1 = stopMonitoring s x;
          (interval, s2) =
            setInterval x (jmul (jmul (checkInterval (config s1)) (Fin 60)) (Fin 1000)) s1
      in s2\<lparr>monitoringIntervals := AList.update x interval (monitoringIntervals s2)\<rparr>)"

text \<open>\<open>new EntryMonitor(config)\<close> in a given environment.\<close>

definition new_EntryMonitor ::
  "PartialConfig \<Rightarrow> (string \<Rightarrow> StockScan option) \<Rightarrow> (string \<Rightarrow> HistoricalDataPoint list option)
     \<Rightarrow> System" where
  "new_EntryMonitor p rows market =
     \<lparr>monitoringIntervals = [], config = merge_config default_config p, timers = [],
      nextHandle = 0, db_stockScan = rows, db_read_ok = True, db_write_ok = True,
      getStockData = market, clock = 0, email_ok = True, sent = [], console_errors = []\<rparr>"

section \<open>Example inputs\<close>

text \<open>A bar that opens, peaks, bottoms and closes at one price.\<close>

definition bar :: "int \<Rightarrow> real \<Rightarrow> real \<Rightarrow> HistoricalDataPoint" where
  "bar t p v = \<lparr>date = t, open = Fin p, high = Fin p, low = Fin p, close = Fin p, volume = Fin v\<rparr>"

text \<open>Fifty daily bars: 49 at a price of 100, then a close at 110.\<close>

definition jump_series :: "HistoricalDataPoint list" where
  "jump_series = map (\<lambda>i. bar (int i) 100 1000) [0..<49] @ [bar 49 110 1000]"

text \<open>The same fifty bars, handed over with the latest bar first.\<close>

definition rotated_series :: "HistoricalDataPoint list" where
  "rotated_series = bar 49 110 1000 # map (\<lambda>i. bar (int i) 100 1000) [0..<49]"

text \<open>Nine daily bars at a price of 100.\<close>

definition nine_bars :: "HistoricalDataPoint list" where
  "nine_bars = map (\<lambda>i. bar (int i) 100 1000) [0..<9]"

text \<open>Forty daily bars at a price of 100.\<close>

definition short_series :: "HistoricalDataPoint list" where
  "short_series = map (\<lambda>i. bar (int i) 100 1000) [0..<40]"

text \<open>Ten bars at a price of 100 with a volume of 1000: none of the strategies gives a
  signal. The same with a last bar that closes 2% higher on three times the volume: the
  volume strategy gives a signal of confidence 80.\<close>

definition flat_series :: "HistoricalDataPoint list" where
  "flat_series = map (\<lambda>i. bar (int i) 100 1000) [0..<10]"

definition spike_series :: "HistoricalDataPoint list" where
  "spike_series = map (\<lambda>i. bar (int i) 100 1000) [0..<9] @ [bar 9 102 3000]"

definition acme :: StockScan where
  "acme = \<lparr>ss_id = ''scan1'', ss_symbol = ''ACME'', ss_name = ''Acme Corp'', hasVcpPattern = True,
           vcpScore = Fin 72, entrySignal = False, lastPrice = Fin 100, ss_volume = Fin 1000,
           scanConfig_name = ''Daily scan'', scanConfig_userId = ''user1'',
           scan_etfSymbol = ''SPY''\<rparr>"

definition no_change :: PartialConfig where
  "no_change = \<lparr>p_checkInterval = None, p_timeframes = None, p_minConfidence = None,
                p_maxRiskPerTrade = None, p_enableEmailAlerts = None\<rparr>"

definition alerts_off :: PartialConfig where
  "alerts_off = no_change\<lparr>p_enableEmailAlerts := Some False\<rparr>"

text \<open>The stored rows: \<open>scan1\<close> with a pattern, \<open>scan3\<close> without one.\<close>

definition acme_rows :: "string \<Rightarrow> StockScan option" where
  "acme_rows =
     (\<lambda>k. if k = ''scan1'' then Some acme
          else if k = ''scan3'' then Some (acme\<lparr>ss_id := ''scan3'', hasVcpPattern := False\<rparr>)
          else None)"

definition flat_market :: "string \<Rightarrow> HistoricalDataPoint list option" where
  "flat_market = (\<lambda>sym. Some flat_series)"

definition spike_market :: "string \<Rightarrow> HistoricalDataPoint list option" where
  "spike_market = (\<lambda>sym. Some spike_series)"

text \<open>A monitor with the default configuration after \<open>startMonitoring\<close> for \<open>scan1\<close>
  while the market is flat.\<close>

definition watching :: System where
  "watching = snd (startMonitoring (new_EntryMonitor no_change acme_rows flat_market) ''scan1'')"

text \<open>The same as a sequence of events: the call, and its task resumed four times (the row,
  the registration of timer 0, and the two timeframes of the immediate check). Fifteen
  minutes later the market data shows the spike.\<close>

definition launch :: "event list" where
  "launch = [StartMonitoring ''scan1'', Resume 0, Resume 0, Resume 0, Resume 0]"

definition spike_arrives :: event where
  "spike_arrives = Environment acme_rows True True spike_market 900000 True"

text \<open>The signal that the volume strategy gives on \<open>spike_series\<close> at that time.\<close>

definition spike_signal :: EntrySignal where
  "spike_signal = the (checkVolumeSignal acme spike_series ''1h'' 900000)"

text \<open>Timer 0 fires, and its check has received the row and waits for the market data of
  the first timeframe; then it has found the signal of the volume strategy and waits for the
  update of the row; then the update is done, the alert handed to the email service, and the
  check waits for the email service.\<close>

definition awaiting_data :: runtime where
  "awaiting_data =
     steps (new_EntryMonitor no_change acme_rows flat_market, [])
       (launch @ [spike_arrives, Fire 0, Resume 0])"

definition awaiting_update :: runtime where
  "awaiting_update =
     steps (new_EntryMonitor no_change acme_rows flat_market, [])
       (launch @ [spike_arrives, Fire 0, Resume 0, Resume 0])"

definition awaiting_email :: runtime where
  "awaiting_email = steps awaiting_update [Resume 0]"

text \<open>The same with email alerts switched off.\<close>

definition quiet_awaiting_update :: runtime where
  "quiet_awaiting_update =
     steps (new_EntryMonitor alerts_off acme_rows flat_market, [])
       (launch @ [spike_arrives, Fire 0, Resume 0, Resume 0])"

text \<open>Timer 0 fires twice before the first of its two checks has received its row.\<close>

definition overlapping :: "event list" where
  "overlapping =
     launch @ [spike_arrives, Fire 0, Fire 0, Resume 0, Resume 1, Resume 0, Resume 1,
               Resume 0, Resume 1, Resume 0, Resume 0]"

text \<open>Fifty daily bars: 48 at a price of 1, then two at a price of \<open>10^160\<close>.\<close>

definition overflow_series :: "HistoricalDataPoint list" where
  "overflow_series =
     map (\<lambda>i. bar (int i) 1 1000) [0..<48] @ [bar 48 (10 ^ 160) 1000, bar 49 (10 ^ 160) 1000]"

text \<open>Fifty daily bars at a price of 100 of which the last two carry the same timestamp and
  differ in their close; and the same bars with these two exchanged.\<close>

definition tied_series :: "HistoricalDataPoint list" where
  "tied_series = map (\<lambda>i. bar (int i) 100 1000) [0..<48] @ [bar 48 100 1000, bar 48 110 1000]"

definition tied_series_swapped :: "HistoricalDataPoint list" where
  "tied_series_swapped =
     map (\<lambda>i. bar (int i) 100 1000) [0..<48] @ [bar 48 110 1000, bar 48 100 1000]"

section \<open>Arithmetic of the number model\<close>

lemma overflow_bound_numeral [code]: "overflow_bound = 179769313486231580793728971405303415079934132710037826936173778980444968292764750946649017977587207096330286416692887910946555547851940402630657488671505820681908902000708383676273854845817711531764475730270069855571366959622842914819860834936475292719074168444365510704342711559699508093042880177904174497792"
  by (simp add: overflow_bound_def)

lemma overflow_bound_large: "10 ^ 300 < overflow_bound"
  by (simp add: overflow_bound_numeral)

lemma overflow_bound_less: "overflow_bound < 10 ^ 309"
  by (simp add: overflow_bound_numeral)

lemma fin_Fin: "- overflow_bound < r \<Longrightarrow> r < overflow_bound \<Longrightarrow> fin r = Fin r"
  by (simp add: fin_def)

lemma fin_small: "\<bar>r\<bar> \<le> 10 ^ 300 \<Longrightarrow> fin r = Fin r"
  using overflow_bound_large by (intro fin_Fin) linarith+

lemma fin_nonneg: "0 \<le> r \<Longrightarrow> fin r = Fin r \<or> fin r = PInf"
  using overflow_bound_large by (auto simp: fin_def)

lemma fin_upper: "r \<le> 100 \<Longrightarrow> fin r = Fin r \<or> fin r = NInf"
  using overflow_bound_large by (auto simp: fin_def)

lemma math_pow2_overflow:
  assumes "10 ^ 155 \<le> \<bar>a\<bar>"
  shows "math_pow2 (Fin a) = PInf"
proof -
  have "(10 ^ 155) * (10 ^ 155) \<le> \<bar>a\<bar> * \<bar>a\<bar>"
    using assms by (intro mult_mono) simp_all
  then have "(10::real) ^ 310 \<le> a * a" by (simp add: abs_mult_self_eq flip: power_add)
  moreover have "overflow_bound \<le> 10 ^ 310" by (simp add: overflow_bound_numeral)
  ultimately have "overflow_bound \<le> a * a" by linarith
  then show ?thesis by (simp add: fin_def)
qed

lemma jadd_NaN_right [simp]: "jadd x NaN = NaN"
  by (cases x) simp_all

lemma jmul_NaN_right [simp]: "jmul x NaN = NaN"
  by (cases x) simp_all

lemma jsub_NaN_right [simp]: "jsub x NaN = NaN"
  by (simp add: jsub_def)

lemma foldl_jadd_PInf: "\<forall>x\<in>set xs. f x = PInf \<Longrightarrow> foldl (\<lambda>sum d. jadd sum (f d)) PInf xs = PInf"
  by (induction xs) simp_all

lemma sum_of_all_PInf:
  assumes "xs \<noteq> []" and "\<forall>x\<in>set xs. f x = PInf"
  shows "sum_of f xs = PInf"
proof (cases xs)
  case Nil
  with assms(1) show ?thesis by simp
next
  case (Cons y ys)
  with assms(2) have "f y = PInf" and "\<forall>x\<in>set ys. f x = PInf" by simp_all
  with Cons show ?thesis by (simp add: sum_of_def foldl_jadd_PInf)
qed

lemma math_min_Fin: "math_min (Fin a) (Fin b) = Fin (min a b)"
  by (simp add: math_min_def min_def)

lemma math_max_Fin: "math_max (Fin a) (Fin b) = Fin (max a b)"
  by (simp add: math_max_def max_def)

lemma math_min_fin: "0 \<le> r \<Longrightarrow> k \<le> 100 \<Longrightarrow> math_min (Fin k) (fin r) = Fin (min k r)"
  using overflow_bound_large by (auto simp: fin_def math_min_def min_def)

lemma jadd_bounded: "\<bar>a + b\<bar> \<le> 200 \<Longrightarrow> jadd (Fin a) (Fin b) = Fin (a + b)"
proof -
  assume "\<bar>a + b\<bar> \<le> 200"
  moreover have "(200::real) \<le> 10 ^ 300" by simp
  ultimately have "\<bar>a + b\<bar> \<le> 10 ^ 300" by linarith
  then show ?thesis by (simp add: fin_small)
qed

lemma jmul_bounded: "\<bar>a * b\<bar> \<le> 200 \<Longrightarrow> jmul (Fin a) (Fin b) = Fin (a * b)"
proof -
  assume "\<bar>a * b\<bar> \<le> 200"
  moreover have "(200::real) \<le> 10 ^ 300" by simp
  ultimately have "\<bar>a * b\<bar> \<le> 10 ^ 300" by linarith
  then show ?thesis by (simp add: fin_small)
qed

section \<open>Properties of the analyzer\<close>

lemma tightness_score_range:
  "\<exists>t. s_score (calculatePriceTightness data) = Fin t \<and> 0 \<le> t \<and> t \<le> 90"
  by (simp add: calculatePriceTightness_def Let_def)

lemma breakout_score_range:
  "\<exists>b. s_score (assessBreakoutPotential data) = Fin b \<and> 0 \<le> b \<and> b \<le> 85"
  by (simp add: assessBreakoutPotential_def Let_def)

lemma volatility_of_eq:
  "volatility_of data p =
     (if length (slice_from (- p) data) < 2 then Fin 0
      else jmul (math_sqrt (variance_of (returns_of (slice_from (- p) data)))) (math_sqrt (Fin 252)))"
  by (simp add: volatility_of_def variance_of_def Let_def)

text \<open>A volatility is a non-negative number, \<open>Infinity\<close> or \<open>NaN\<close>.\<close>

lemma volatility_of_cases:
  "(\<exists>v. volatility_of data p = Fin v \<and> 0 \<le> v) \<or> volatility_of data p = PInf
     \<or> volatility_of data p = NaN"
proof (cases "length (slice_from (- p) data) < 2")
  case True
  then show ?thesis by (simp add: volatility_of_eq)
next
  case False
  let ?v = "variance_of (returns_of (slice_from (- p) data))"
  have eq: "volatility_of data p = jmul (math_sqrt ?v) (Fin (sqrt 252))"
    using False by (simp add: volatility_of_eq)
  show ?thesis
  proof (cases ?v)
    case (Fin a)
    show ?thesis
    proof (cases "a < 0")
      case True
      with Fin eq show ?thesis by simp
    next
      case False
      then have "0 \<le> sqrt a * sqrt 252" by simp
      from fin_nonneg [OF this] Fin eq False this show ?thesis by auto
    qed
  next
    case PInf
    with eq show ?thesis by simp
  next
    case NInf
    with eq show ?thesis by simp
  next
    case NaN
    with eq show ?thesis by simp
  qed
qed

text \<open>The contraction is a number between 0 and 100, or \<open>NaN\<close>: the guard
  \<open>longVol > 0\<close> lets an infinite \<open>longVol\<close> through, and \<open>Infinity / Infinity\<close> is
  \<open>NaN\<close>, which \<open>Math.max(0, contraction)\<close> returns unchanged.\<close>

lemma contraction_cases:
  "(\<exists>c. contraction (calculateVolatilityContraction data) = Fin c \<and> 0 \<le> c \<and> c \<le> 100)
     \<or> contraction (calculateVolatilityContraction data) = NaN"
proof -
  define l where "l = volatility_of data 20"
  define s where "s = volatility_of data 5"
  have lc: "(\<exists>v. l = Fin v \<and> 0 \<le> v) \<or> l = PInf \<or> l = NaN"
    unfolding l_def by (rule volatility_of_cases)
  have sc: "(\<exists>v. s = Fin v \<and> 0 \<le> v) \<or> s = PInf \<or> s = NaN"
    unfolding s_def by (rule volatility_of_cases)
  have eq: "contraction (calculateVolatilityContraction data) =
      math_max (Fin 0) (if jgt l (Fin 0) then jmul (jsub (Fin 1) (jdiv s l)) (Fin 100) else Fin 0)"
    by (simp add: calculateVolatilityContraction_def Let_def l_def s_def)
  show ?thesis
  proof (cases "jgt l (Fin 0)")
    case False
    with eq show ?thesis by (simp add: math_max_Fin)
  next
    case True
    from lc True have lpos: "(\<exists>b. l = Fin b \<and> 0 < b) \<or> l = PInf"
      by (auto simp: jgt_def)
    have ratio: "(\<exists>q. jdiv s l = Fin q \<and> 0 \<le> q) \<or> jdiv s l = PInf \<or> jdiv s l = NaN"
    proof (cases s)
      case s: (Fin a)
      with sc have a: "0 \<le> a" by simp
      from lpos show ?thesis
      proof
        assume "\<exists>b. l = Fin b \<and> 0 < b"
        then obtain b where b: "l = Fin b" "0 < b" by blast
        with a have "0 \<le> a / b" by simp
        from fin_nonneg [OF this] this s b show ?thesis by auto
      next
        assume "l = PInf"
        with s show ?thesis by simp
      qed
    next
      case PInf
      with lpos show ?thesis by auto
    next
      case NInf
      with sc show ?thesis by simp
    next
      case NaN
      then show ?thesis by simp
    qed
    have diff: "(\<exists>d. jsub (Fin 1) (jdiv s l) = Fin d \<and> d \<le> 1) \<or> jsub (Fin 1) (jdiv s l) = NInf
        \<or> jsub (Fin 1) (jdiv s l) = NaN"
      using ratio
    proof (elim disjE exE conjE)
      fix q :: real assume q: "jdiv s l = Fin q" "0 \<le> q"
      then have "1 - q \<le> 100" by simp
      from fin_upper [OF this] q show ?thesis by (auto simp: jsub_def)
    next
      assume "jdiv s l = PInf"
      then show ?thesis by (simp add: jsub_def)
    next
      assume "jdiv s l = NaN"
      then show ?thesis by (simp add: jsub_def)
    qed
    have prod: "(\<exists>e. jmul (jsub (Fin 1) (jdiv s l)) (Fin 100) = Fin e \<and> e \<le> 100)
        \<or> jmul (jsub (Fin 1) (jdiv s l)) (Fin 100) = NInf
        \<or> jmul (jsub (Fin 1) (jdiv s l)) (Fin 100) = NaN"
      using diff
    proof (elim disjE exE conjE)
      fix d :: real assume d: "jsub (Fin 1) (jdiv s l) = Fin d" "d \<le> 1"
      then have "d * 100 \<le> 100" by simp
      from fin_upper [OF this] this d show ?thesis by auto
    next
      assume "jsub (Fin 1) (jdiv s l) = NInf"
      then show ?thesis by simp
    next
      assume "jsub (Fin 1) (jdiv s l) = NaN"
      then show ?thesis by simp
    qed
    from prod True eq show ?thesis by (auto simp: math_max_def)
  qed
qed

lemma calculateVCPScore_range:
  assumes "contraction volatility = Fin c" "0 \<le> c"
    and "s_score tightness = Fin t" "0 \<le> t" "t \<le> 90"
    and "s_score breakout = Fin b" "0 \<le> b" "b \<le> 85"
  shows "\<exists>s. calculateVCPScore uptrend bases volatility tightness volumeAnalysis breakout = Fin s
            \<and> s \<in> \<int> \<and> 0 \<le> s \<and> s \<le> 100"
proof -
  define u :: real where "u = (if uptrend then 20 else 0)"
  define bs where "bs = min 25 (real (length bases) * 8)"
  define cs where "cs = min 20 (c * 0.4)"
  define ds :: real where "ds = (if dryUp volumeAnalysis then 10 else 0)"
  define ts where "ts = t * 0.15"
  define brs where "brs = b * 0.1"
  define x where "x = u + bs + cs + ts + ds + brs"
  have bt: "0 \<le> ts" "ts \<le> 14" using assms(4,5) by (simp_all add: ts_def)
  have br: "0 \<le> brs" "brs \<le> 9" using assms(7,8) by (simp_all add: brs_def)
  have bu: "0 \<le> u" "u \<le> 20" by (simp_all add: u_def)
  have bb: "0 \<le> bs" "bs \<le> 25" by (simp_all add: bs_def)
  have bc: "0 \<le> cs" "cs \<le> 20" using assms(2) by (simp_all add: cs_def)
  have bd: "0 \<le> ds" "ds \<le> 10" by (simp_all add: ds_def)
  have x0: "0 \<le> x" unfolding x_def using bu bb bc bd bt br by linarith
  have x1: "x \<le> 98" unfolding x_def using bu bb bc bd bt br by linarith
  have e1: "(if uptrend then jadd (Fin 0) (Fin 20) else Fin 0) = Fin u"
    using jadd_bounded [of 0 20] by (simp add: u_def)
  have e2: "math_min (Fin 25) (jmul (len bases) (Fin 8)) = Fin bs"
    by (simp add: len_def bs_def math_min_fin)
  have e3: "math_min (Fin 20) (jmul (Fin c) (Fin 0.4)) = Fin cs"
    using assms(2) by (simp add: cs_def math_min_fin)
  have e4: "jmul (Fin t) (Fin 0.15) = Fin ts"
    unfolding ts_def using bt by (intro jmul_bounded) (simp add: ts_def)
  have e5: "jmul (Fin b) (Fin 0.1) = Fin brs"
    unfolding brs_def using br by (intro jmul_bounded) (simp add: brs_def)
  have a1: "jadd (Fin u) (Fin bs) = Fin (u + bs)"
    using bu bb by (intro jadd_bounded) linarith
  have a2: "jadd (Fin (u + bs)) (Fin cs) = Fin (u + bs + cs)"
    using bu bb bc by (intro jadd_bounded) linarith
  have a3: "jadd (Fin (u + bs + cs)) (Fin ts) = Fin (u + bs + cs + ts)"
    using bu bb bc bt by (intro jadd_bounded) linarith
  have a4: "(if dryUp volumeAnalysis then jadd (Fin (u + bs + cs + ts)) (Fin 10)
             else Fin (u + bs + cs + ts)) = Fin (u + bs + cs + ts + ds)"
  proof (cases "dryUp volumeAnalysis")
    case True
    have "jadd (Fin (u + bs + cs + ts)) (Fin 10) = Fin (u + bs + cs + ts + 10)"
      using bu bb bc bt by (intro jadd_bounded) linarith
    with True show ?thesis by (simp add: ds_def)
  next
    case False
    then show ?thesis by (simp add: ds_def)
  qed
  have a5: "jadd (Fin (u + bs + cs + ts + ds)) (Fin brs) = Fin x"
    unfolding x_def using bu bb bc bt bd br by (intro jadd_bounded) linarith
  have eq: "calculateVCPScore uptrend bases volatility tightness volumeAnalysis breakout
        = math_min (Fin 100) (Fin (of_int \<lfloor>x + 1 / 2\<rfloor>))"
    by (simp only: calculateVCPScore_def Let_def assms(1,3,6) e1 e2 e3 e4 e5 a1 a2 a3 a4 a5
        math_round.simps)
  have f0: "0 \<le> \<lfloor>x + 1 / 2\<rfloor>" using x0 by simp
  have "x + 1 / 2 < 99" using x1 by simp
  then have f1: "\<lfloor>x + 1 / 2\<rfloor> < 99" by (simp add: floor_less_iff)
  from f0 f1 show ?thesis unfolding eq
    by (simp add: math_min_Fin)
qed

lemma calculateVCPScore_NaN:
  "contraction volatility = NaN \<Longrightarrow>
     calculateVCPScore uptrend bases volatility tightness volumeAnalysis breakout = NaN"
  by (simp add: calculateVCPScore_def Let_def math_min_def)

lemma analyzeVCP_long:
  "\<not> length data < 50 \<Longrightarrow>
   analyzeVCP data =
     (let recentData = slice_from (- 100) (array_sort by_date data);
          uptrend = checkUptrend recentData;
          bases = findBases recentData;
          volatility = calculateVolatilityContraction recentData;
          tightness = calculatePriceTightness recentData;
          volumeAnalysis = analyzeVolume recentData;
          breakout = assessBreakoutPotential recentData;
          score' = calculateVCPScore uptrend bases volatility tightness volumeAnalysis breakout
      in \<lparr>hasPattern = jgt score' (Fin 60), score = score', baseCount = length bases,
          volatilityContraction = contraction volatility,
          priceTightness = s_score tightness,
          volumeDryUp = dryUp volumeAnalysis,
          breakoutPotential = s_score breakout,
          entryPoints = findEntryPoints recentData,
          description = generateDescription (jgt score' (Fin 60)) score' bases volatility tightness
                          volumeAnalysis breakout\<rparr>)"
  by (simp add: analyzeVCP_def analyzeVCP_store_def array_spread_def array_sort_in_place_def
      array_slice_from_def Let_def nth_append)

lemma analyzeVCP_short:
  "length data < 50 \<Longrightarrow>
     analyzeVCP data =
       \<lparr>hasPattern = False, score = Fin 0, baseCount = 0, volatilityContraction = Fin 0,
        priceTightness = Fin 0, volumeDryUp = False, breakoutPotential = Fin 0,
        entryPoints = [], description = [Str ''Insufficient data for analysis'']\<rparr>"
  by (simp add: analyzeVCP_def analyzeVCP_store_def)

lemma length_insert_by [simp]: "length (insert_by cmp x xs) = Suc (length xs)"
  by (induction xs) auto

lemma length_array_sort [simp]: "length (array_sort cmp xs) = length xs"
  by (induction xs) (auto simp: array_sort_def)

lemma analyzeVCP_of_sorted:
  "analyzeVCP data =
     (if length (array_sort by_date data) < 50
      then \<lparr>hasPattern = False, score = Fin 0, baseCount = 0, volatilityContraction = Fin 0,
            priceTightness = Fin 0, volumeDryUp = False, breakoutPotential = Fin 0,
            entryPoints = [], description = [Str ''Insufficient data for analysis'']\<rparr>
      else let recentData = slice_from (- 100) (array_sort by_date data);
               uptrend = checkUptrend recentData;
               bases = findBases recentData;
               volatility = calculateVolatilityContraction recentData;
               tightness = calculatePriceTightness recentData;
               volumeAnalysis = analyzeVolume recentData;
               breakout = assessBreakoutPotential recentData;
               score' = calculateVCPScore uptrend bases volatility tightness volumeAnalysis breakout
           in \<lparr>hasPattern = jgt score' (Fin 60), score = score', baseCount = length bases,
               volatilityContraction = contraction volatility,
               priceTightness = s_score tightness,
               volumeDryUp = dryUp volumeAnalysis,
               breakoutPotential = s_score breakout,
               entryPoints = findEntryPoints recentData,
               description = generateDescription (jgt score' (Fin 60)) score' bases volatility
                               tightness volumeAnalysis breakout\<rparr>)"
proof (cases "length data < 50")
  case True
  then show ?thesis by (simp add: analyzeVCP_short)
next
  case False
  with analyzeVCP_long [OF False] show ?thesis by simp
qed

lemma entryPoints_analyzeVCP:
  "\<not> length data < 50 \<Longrightarrow>
     entryPoints (analyzeVCP data) = findEntryPoints (slice_from (- 100) (array_sort by_date data))"
  by (simp add: analyzeVCP_long Let_def)

lemma findEntryPoints_sorted:
  "sorted_wrt (\<lambda>a b. jge (confidence a) (confidence b)) (findEntryPoints data)"
  by (simp add: findEntryPoints_def Let_def array_sort_def jgt_def jge_def jsub_def fin_small)

text \<open>
  C1. A series of fewer than 50 points is answered with the fixed "insufficient data"
  result: no pattern, score 0, no bases, no entry points, and the description
  \<open>Insufficient data for analysis\<close>. The result is an ordinary value: nothing is thrown.
\<close>

theorem analyzeVCP_insufficient:
  "length data < 50 \<Longrightarrow>
     analyzeVCP data =
       \<lparr>hasPattern = False, score = Fin 0, baseCount = 0, volatilityContraction = Fin 0,
        priceTightness = Fin 0, volumeDryUp = False, breakoutPotential = Fin 0,
        entryPoints = [], description = [Str ''Insufficient data for analysis'']\<rparr>"
  by (simp add: analyzeVCP_def analyzeVCP_store_def)

theorem analyzeVCP_insufficient_witness:
  "length short_series < 50 \<and>
   analyzeVCP short_series =
       \<lparr>hasPattern = False, score = Fin 0, baseCount = 0, volatilityContraction = Fin 0,
        priceTightness = Fin 0, volumeDryUp = False, breakoutPotential = Fin 0,
        entryPoints = [], description = [Str ''Insufficient data for analysis'']\<rparr>"
proof -
  have short: "length short_series < 50" by (simp add: short_series_def)
  from short analyzeVCP_insufficient [OF short] show ?thesis by simp
qed

text \<open>In every result the score is a whole number between 0 and 100 or it is \<open>NaN\<close>,
  and a pattern is reported exactly when the score is greater than 60, so never with
  \<open>NaN\<close>.\<close>

lemma analyzeVCP_score_cases:
  "(score (analyzeVCP data) = NaN \<and> \<not> hasPattern (analyzeVCP data))
   \<or> (\<exists>s. score (analyzeVCP data) = Fin s \<and> s \<in> \<int> \<and> 0 \<le> s \<and> s \<le> 100
          \<and> hasPattern (analyzeVCP data) = (60 < s))"
proof (cases "length data < 50")
  case True
  then show ?thesis by (simp add: analyzeVCP_short)
next
  case False
  let ?rd = "slice_from (- 100) (array_sort by_date data)"
  let ?score = "calculateVCPScore (checkUptrend ?rd) (findBases ?rd)
      (calculateVolatilityContraction ?rd) (calculatePriceTightness ?rd) (analyzeVolume ?rd)
      (assessBreakoutPotential ?rd)"
  from contraction_cases [of ?rd] show ?thesis
  proof
    assume "\<exists>c. contraction (calculateVolatilityContraction ?rd) = Fin c \<and> 0 \<le> c \<and> c \<le> 100"
    then obtain c where c: "contraction (calculateVolatilityContraction ?rd) = Fin c" "0 \<le> c"
      by blast
    obtain t where t: "s_score (calculatePriceTightness ?rd) = Fin t" "0 \<le> t" "t \<le> 90"
      using tightness_score_range by blast
    obtain b where b: "s_score (assessBreakoutPotential ?rd) = Fin b" "0 \<le> b" "b \<le> 85"
      using breakout_score_range by blast
    from calculateVCPScore_range [OF c t b]
    obtain s where s: "?score = Fin s" "s \<in> \<int>" "0 \<le> s" "s \<le> 100"
      by blast
    with False show ?thesis
      by (simp add: analyzeVCP_long Let_def jgt_def)
  next
    assume "contraction (calculateVolatilityContraction ?rd) = NaN"
    then have "?score = NaN" by (rule calculateVCPScore_NaN)
    with False show ?thesis
      by (simp add: analyzeVCP_long Let_def jgt_def)
  qed
qed

text \<open>The score is \<open>NaN\<close> on \<open>overflow_series\<close>. Of the daily returns of its last
  20 bars, and of its last 5, one is about \<open>1e160\<close> and the others are 0; the squared
  deviation of each of them from their mean exceeds the largest double, so both variances
  are \<open>Infinity\<close>, and so are the two volatilities.\<close>

lemma returns_of_closes:
  "returns_of xs = map (\<lambda>(p, q). jdiv (jsub q p) p) (zip (map close xs) (tl (map close xs)))"
  by (induction xs rule: returns_of.induct) auto

lemma length_overflow_series: "length overflow_series = 50"
  by (simp add: overflow_series_def)

lemma closes20: "map close (slice_from (- 20) (slice_from (- 100) (array_sort by_date overflow_series))) = [Fin 1, Fin 1, Fin 1, Fin 1, Fin 1, Fin 1, Fin 1, Fin 1, Fin 1, Fin 1, Fin 1, Fin 1, Fin 1, Fin 1, Fin 1, Fin 1, Fin 1, Fin 1, Fin (10 ^ 160), Fin (10 ^ 160)]"
  by code_simp

lemma closes5:
  "map close (slice_from (- 5) (slice_from (- 100) (array_sort by_date overflow_series))) = [Fin 1, Fin 1, Fin 1, Fin (10 ^ 160), Fin (10 ^ 160)]"
  by code_simp

lemma returns20: "returns_of (slice_from (- 20) (slice_from (- 100) (array_sort by_date overflow_series))) = [Fin 0, Fin 0, Fin 0, Fin 0, Fin 0, Fin 0, Fin 0, Fin 0, Fin 0, Fin 0, Fin 0, Fin 0, Fin 0, Fin 0, Fin 0, Fin 0, Fin 0, Fin (10 ^ 160 - 1), Fin 0]"
  by (simp add: returns_of_closes closes20 jsub_def fin_def overflow_bound_numeral)

lemma returns5: "returns_of (slice_from (- 5) (slice_from (- 100) (array_sort by_date overflow_series))) = [Fin 0, Fin 0, Fin (10 ^ 160 - 1), Fin 0]"
  by (simp add: returns_of_closes closes5 jsub_def fin_def overflow_bound_numeral)

lemma squares_overflow:
  assumes "r = 0 \<or> r = 10 ^ 160 - 1" and "m = (10 ^ 160 - 1) / 19 \<or> m = (10 ^ 160 - 1) / 4"
  shows "math_pow2 (jsub (Fin r) (Fin m)) = PInf"
proof -
  have small: "\<bar>r - m\<bar> \<le> 10 ^ 300" using assms by auto
  have large: "10 ^ 155 \<le> \<bar>r - m\<bar>" using assms by auto
  from small have sub: "jsub (Fin r) (Fin m) = Fin (r - m)" by (simp add: jsub_def fin_small)
  show ?thesis unfolding sub by (rule math_pow2_overflow [OF large])
qed

lemma variance20: "variance_of (returns_of (slice_from (- 20) (slice_from (- 100) (array_sort by_date overflow_series)))) = PInf"
proof -
  let ?R = "[Fin 0, Fin 0, Fin 0, Fin 0, Fin 0, Fin 0, Fin 0, Fin 0, Fin 0, Fin 0, Fin 0, Fin 0, Fin 0, Fin 0, Fin 0, Fin 0, Fin 0, Fin (10 ^ 160 - 1), Fin (0::real)]"
  have mean: "jdiv (sum_of (\<lambda>r. r) ?R) (len ?R) = Fin ((10 ^ 160 - 1) / 19)"
    by (simp add: sum_of_def len_def fin_def overflow_bound_numeral)
  have "\<forall>r\<in>set ?R. math_pow2 (jsub r (Fin ((10 ^ 160 - 1) / 19))) = PInf"
    by (auto intro: squares_overflow)
  then have "sum_of (\<lambda>r. math_pow2 (jsub r (Fin ((10 ^ 160 - 1) / 19)))) ?R = PInf"
    by (intro sum_of_all_PInf) simp_all
  then show ?thesis
    unfolding returns20 variance_of_def mean by (simp add: len_def)
qed

lemma variance5: "variance_of (returns_of (slice_from (- 5) (slice_from (- 100) (array_sort by_date overflow_series)))) = PInf"
proof -
  let ?R = "[Fin 0, Fin 0, Fin (10 ^ 160 - 1), Fin (0::real)]"
  have mean: "jdiv (sum_of (\<lambda>r. r) ?R) (len ?R) = Fin ((10 ^ 160 - 1) / 4)"
    by (simp add: sum_of_def len_def fin_def overflow_bound_numeral)
  have "\<forall>r\<in>set ?R. math_pow2 (jsub r (Fin ((10 ^ 160 - 1) / 4))) = PInf"
    by (auto intro: squares_overflow)
  then have "sum_of (\<lambda>r. math_pow2 (jsub r (Fin ((10 ^ 160 - 1) / 4)))) ?R = PInf"
    by (intro sum_of_all_PInf) simp_all
  then show ?thesis
    unfolding returns5 variance_of_def mean by (simp add: len_def)
qed

lemma volatility_overflow:
  "volatility_of (slice_from (- 100) (array_sort by_date overflow_series)) 20 = PInf" "volatility_of (slice_from (- 100) (array_sort by_date overflow_series)) 5 = PInf"
proof -
  have "length (map close (slice_from (- 20) (slice_from (- 100) (array_sort by_date overflow_series)))) = 20" unfolding closes20 by simp
  then have l20: "\<not> length (slice_from (- 20) (slice_from (- 100) (array_sort by_date overflow_series))) < 2" by simp
  have "length (map close (slice_from (- 5) (slice_from (- 100) (array_sort by_date overflow_series)))) = 5" unfolding closes5 by simp
  then have l5: "\<not> length (slice_from (- 5) (slice_from (- 100) (array_sort by_date overflow_series))) < 2" by simp
  show "volatility_of (slice_from (- 100) (array_sort by_date overflow_series)) 20 = PInf"
    using l20 by (simp add: volatility_of_eq variance20)
  show "volatility_of (slice_from (- 100) (array_sort by_date overflow_series)) 5 = PInf"
    using l5 by (simp add: volatility_of_eq variance5)
qed

lemma contraction_overflow: "contraction (calculateVolatilityContraction (slice_from (- 100) (array_sort by_date overflow_series))) = NaN"
  by (simp add: calculateVolatilityContraction_def Let_def volatility_overflow jgt_def math_max_def)

text \<open>
  C2. The score of a result is meant to lie between 0 and 100, and a pattern is reported
  exactly when it is greater than 60. On \<open>overflow_series\<close>, 48 daily bars at a price of 1
  followed by two at \<open>1e160\<close>, the score is \<open>NaN\<close>, which is neither at least 0 nor at
  most 100; no pattern is reported.
\<close>

theorem analyzeVCP_score_overflow:
  "score (analyzeVCP overflow_series) = NaN
   \<and> \<not> jle (Fin 0) (score (analyzeVCP overflow_series))
   \<and> \<not> jle (score (analyzeVCP overflow_series)) (Fin 100)
   \<and> hasPattern (analyzeVCP overflow_series) = False"
proof -
  let ?rd = "slice_from (- 100) (array_sort by_date overflow_series)"
  have "calculateVCPScore (checkUptrend ?rd) (findBases ?rd)
      (calculateVolatilityContraction ?rd) (calculatePriceTightness ?rd) (analyzeVolume ?rd)
      (assessBreakoutPotential ?rd) = NaN"
    using contraction_overflow by (rule calculateVCPScore_NaN)
  moreover have "\<not> length overflow_series < 50" by (simp add: length_overflow_series)
  ultimately show ?thesis
    by (simp add: analyzeVCP_long Let_def jgt_def)
qed

text \<open>
  C8. The entry points of every result are in descending order of confidence.
\<close>

theorem entryPoints_sorted:
  "sorted_wrt (\<lambda>a b. jge (confidence a) (confidence b)) (entryPoints (analyzeVCP data))"
proof (cases "length data < 50")
  case True
  then show ?thesis by (simp add: analyzeVCP_def analyzeVCP_store_def)
next
  case False
  then show ?thesis by (simp add: entryPoints_analyzeVCP findEntryPoints_sorted)
qed

lemma length_jump_series: "length jump_series = 50"
  by (simp add: jump_series_def)

text \<open>
  C6. Where the support level lies more than 2% below the current price, the entry points
  contain a support candidate of confidence 45. Its price is the support level times 0.99,
  so 1% below the support level, where the comment in \<open>findEntryPoints\<close> says "1% above
  support": in \<open>jump_series\<close> the support level is 100 and the current price 110, and the
  candidate's price is 99.
\<close>

theorem support_candidate_below_support:
  "math_min_of (map low (slice 0 (- 1) (slice_from (- 20)
       (slice_from (- 100) (array_sort by_date jump_series))))) = Fin 100
   \<and> close (last (slice_from (- 100) (array_sort by_date jump_series))) = Fin 110
   \<and> entryPoints (analyzeVCP jump_series) =
       [\<lparr>type = ''pivot'', price = Fin 110, confidence = Fin 60,
          ep_description = ''Pivot point at current level''\<rparr>,
        \<lparr>type = ''support'', price = Fin 99, confidence = Fin 45,
          ep_description = ''Support level bounce''\<rparr>]"
proof -
  have support: "math_min_of (map low (slice 0 (- 1) (slice_from (- 20)
       (slice_from (- 100) (array_sort by_date jump_series))))) = Fin 100"
    by code_simp
  have current: "close (last (slice_from (- 100) (array_sort by_date jump_series))) = Fin 110"
    by code_simp
  have "\<not> length jump_series < 50" by (simp add: length_jump_series)
  then have "entryPoints (analyzeVCP jump_series)
      = findEntryPoints (slice_from (- 100) (array_sort by_date jump_series))"
    by (rule entryPoints_analyzeVCP)
  also have "\<dots> = [\<lparr>type = ''pivot'', price = Fin 110, confidence = Fin 60,
        ep_description = ''Pivot point at current level''\<rparr>,
      \<lparr>type = ''support'', price = Fin 99, confidence = Fin 45,
        ep_description = ''Support level bounce''\<rparr>]"
    by code_simp
  finally show ?thesis using support current by simp
qed

text \<open>In general: where the support level is below 98% of the current price, the candidate
  is among the entry points, at 99% of the support level.\<close>

lemma set_insert_by [simp]: "set (insert_by cmp x xs) = insert x (set xs)"
  by (induction xs) auto

lemma set_array_sort [simp]: "set (array_sort cmp xs) = set xs"
  by (induction xs) (auto simp: array_sort_def)

lemma findEntryPoints_support:
  assumes "\<not> length (slice_from (- 20) data) < 10"
    and "jlt (math_min_of (map low (slice 0 (- 1) (slice_from (- 20) data))))
             (jmul (close (slice_from (- 20) data ! (length (slice_from (- 20) data) - 1))) (Fin 0.98))"
  shows "\<lparr>type = ''support'',
           price = jmul (math_min_of (map low (slice 0 (- 1) (slice_from (- 20) data)))) (Fin 0.99),
           confidence = Fin 45, ep_description = ''Support level bounce''\<rparr>
         \<in> set (findEntryPoints data)"
  using assms by (simp add: findEntryPoints_def Let_def)

text \<open>The sort is the stable insertion of each point behind the points of the same or an
  earlier timestamp.\<close>

lemma insert_by_date: "insert_by by_date x xs = insort_key date x xs"
  by (induction xs) (auto simp: by_date_def jgt_def)

lemma array_sort_by_date: "array_sort by_date xs = sort_key date xs"
  by (induction xs) (auto simp: array_sort_def insert_by_date sort_key_def)

lemma length_tied_series: "length tied_series = 50" "length tied_series_swapped = 50"
  by (simp_all add: tied_series_def tied_series_swapped_def)

text \<open>Two points of the same timestamp keep the order in which they were handed over. The
  two orderings of \<open>tied_series\<close> hold the same fifty points and end in two points of one
  timestamp; the later of the two is taken as the current price, 110 in one ordering and
  100 in the other. In the first the entry points are a pivot and a support candidate, in the
  second a breakout candidate and a pivot.\<close>

theorem analyzeVCP_tied_timestamps:
  "mset tied_series = mset tied_series_swapped
   \<and> map type (entryPoints (analyzeVCP tied_series)) = [''pivot'', ''support'']
   \<and> map type (entryPoints (analyzeVCP tied_series_swapped)) = [''breakout'', ''pivot'']
   \<and> analyzeVCP tied_series \<noteq> analyzeVCP tied_series_swapped"
proof -
  have m: "mset tied_series = mset tied_series_swapped"
    by (simp add: tied_series_def tied_series_swapped_def)
  have "map type (findEntryPoints (slice_from (- 100) (array_sort by_date tied_series)))
      = [''pivot'', ''support'']"
    by code_simp
  then have a: "map type (entryPoints (analyzeVCP tied_series)) = [''pivot'', ''support'']"
    by (simp add: entryPoints_analyzeVCP length_tied_series)
  have "map type (findEntryPoints (slice_from (- 100) (array_sort by_date tied_series_swapped)))
      = [''breakout'', ''pivot'']"
    by code_simp
  then have b: "map type (entryPoints (analyzeVCP tied_series_swapped)) = [''breakout'', ''pivot'']"
    by (simp add: entryPoints_analyzeVCP length_tied_series)
  have "analyzeVCP tied_series \<noteq> analyzeVCP tied_series_swapped"
  proof
    assume "analyzeVCP tied_series = analyzeVCP tied_series_swapped"
    then have "map type (entryPoints (analyzeVCP tied_series))
        = map type (entryPoints (analyzeVCP tied_series_swapped))" by simp
    with a b show False by simp
  qed
  with m a b show ?thesis by simp
qed

text \<open>
  C7. Two series that hold the same points, in whatever order, give the same result,
  provided that no two points share a timestamp: the internal sort then brings both into
  the same order, and nothing but the sorted series enters the computation.
\<close>

theorem analyzeVCP_any_order:
  assumes "mset xs = mset ys" and "distinct (map date xs)"
  shows "analyzeVCP xs = analyzeVCP ys"
proof -
  from assms(2) have inj: "inj_on date (set xs)" by (simp add: distinct_map)
  have m: "mset xs = mset (sort_key date ys)" using assms(1) by simp
  have "sort_key date xs = sort_key date ys"
    by (rule sort_key_inj_key_eq[OF m inj]) simp
  then have "array_sort by_date xs = array_sort by_date ys"
    by (simp only: array_sort_by_date)
  then show ?thesis
    by (subst analyzeVCP_of_sorted [of xs], subst analyzeVCP_of_sorted [of ys]) (simp only:)
qed

theorem analyzeVCP_any_order_witness:
  "mset rotated_series = mset jump_series \<and> distinct (map date rotated_series)
   \<and> analyzeVCP rotated_series = analyzeVCP jump_series"
proof -
  have m: "mset rotated_series = mset jump_series"
    by (simp add: rotated_series_def jump_series_def)
  have d: "distinct (map date rotated_series)"
    by code_simp
  from m d analyzeVCP_any_order [OF m d] show ?thesis by simp
qed

text \<open>
  C10. The call leaves every array that existed before it as it was, the caller's array
  among them: the in-place sort works on a copy.
\<close>

theorem analyzeVCP_input_unchanged:
  "data < length h \<Longrightarrow>
     snd (analyzeVCP_store h data) ! data = h ! data
     \<and> take (length h) (snd (analyzeVCP_store h data)) = h"
  by (simp add: analyzeVCP_store_def array_spread_def array_sort_in_place_def
      array_slice_from_def Let_def nth_append)

theorem analyzeVCP_input_unchanged_witness:
  "(0::nat) < length [rotated_series]
   \<and> snd (analyzeVCP_store [rotated_series] 0) ! 0 = [rotated_series] ! 0
   \<and> take (length [rotated_series]) (snd (analyzeVCP_store [rotated_series] 0)) = [rotated_series]"
proof -
  have h: "(0::nat) < length [rotated_series]" by simp
  from h analyzeVCP_input_unchanged [OF h] show ?thesis by simp
qed

lemma analyzeVCP_store_result: "fst (analyzeVCP_store h data) = analyzeVCP (h ! data)"
  by (simp add: analyzeVCP_def analyzeVCP_store_def array_spread_def array_sort_in_place_def
      array_slice_from_def Let_def nth_append)

section \<open>Properties of the signal strategies\<close>

text \<open>
  C9. Each of the five strategies gives no signal on a window shorter than its minimum
  length: 20 bars for the breakout, 15 for the pivot, 20 for the support bounce, 10 for the
  volume spike and 50 for the moving averages.
\<close>

theorem strategies_minimum_window:
  "(length data < 20 \<longrightarrow> checkBreakoutSignal stockScan data tf now = None)
   \<and> (length data < 15 \<longrightarrow> checkPivotSignal stockScan data tf now = None)
   \<and> (length data < 20 \<longrightarrow> checkSupportSignal stockScan data tf now = None)
   \<and> (length data < 10 \<longrightarrow> checkVolumeSignal stockScan data tf now = None)
   \<and> (length data < 50 \<longrightarrow> checkMovingAverageSignal stockScan data tf now = None)"
  by (simp add: checkBreakoutSignal_def checkPivotSignal_def checkSupportSignal_def
      checkVolumeSignal_def checkMovingAverageSignal_def)

theorem strategies_minimum_window_witness:
  "length nine_bars < 10
   \<and> checkBreakoutSignal acme nine_bars ''1h'' 0 = None
   \<and> checkPivotSignal acme nine_bars ''1h'' 0 = None
   \<and> checkSupportSignal acme nine_bars ''1h'' 0 = None
   \<and> checkVolumeSignal acme nine_bars ''1h'' 0 = None
   \<and> checkMovingAverageSignal acme nine_bars ''1h'' 0 = None
   \<and> length short_series < 50
   \<and> checkMovingAverageSignal acme short_series ''1h'' 0 = None"
proof -
  have nine: "length nine_bars < 10" by (simp add: nine_bars_def)
  have forty: "length short_series < 50" by (simp add: short_series_def)
  from nine forty
    strategies_minimum_window [of nine_bars acme "''1h''" 0]
    strategies_minimum_window [of short_series acme "''1h''" 0]
  show ?thesis by simp
qed

text \<open>At its minimum length a strategy can give a signal: the volume strategy on the ten bars
  of \<open>spike_series\<close>.\<close>

lemma checkVolumeSignal_spike:
  "map_option (\<lambda>signal. (signalType signal, sig_confidence signal, currentPrice signal))
     (checkVolumeSignal acme spike_series ''1h'' 900000) = Some (''volume_spike'', Fin 80, Fin 102)"
  by code_simp

section \<open>Properties of the signal monitor\<close>

lemma watch_entries_Nil_conv:
  "watch_entries s x = [] \<longleftrightarrow> x \<notin> fst ` set (monitoringIntervals s)"
  by (auto simp: watch_entries_def filter_empty_conv)

lemma live_timers_Nil_conv:
  "live_timers s x = [] \<longleftrightarrow> x \<notin> callback_id ` set (timers s)"
  by (auto simp: live_timers_def filter_empty_conv)

lemma consistent_iff:
  "consistent s \<longleftrightarrow>
     (\<forall>t\<in>set (timers s). map_of (monitoringIntervals s) (callback_id t) = Some (handle t)
                          \<and> handle t < nextHandle s)
     \<and> distinct (map handle (timers s))
     \<and> distinct (map fst (monitoringIntervals s))"
  by (simp add: consistent_def list_all_iff)

lemma handleEntrySignal_frame [simp]:
  "monitoringIntervals (handleEntrySignal s r sg) = monitoringIntervals s"
  "timers (handleEntrySignal s r sg) = timers s"
  "nextHandle (handleEntrySignal s r sg) = nextHandle s"
  "config (handleEntrySignal s r sg) = config s"
  "getStockData (handleEntrySignal s r sg) = getStockData s"
  "clock (handleEntrySignal s r sg) = clock s"
  "db_read_ok (handleEntrySignal s r sg) = db_read_ok s"
  by (simp_all add: handleEntrySignal_def Let_def)

lemma sent_handleEntrySignal:
  "sent (handleEntrySignal s r sg) =
     sent s @ (if db_write_ok s \<and> db_stockScan s (ss_id r) \<noteq> None \<and> enableEmailAlerts (config s)
               then [(scanConfig_userId r,
                      \<lparr>a_type = ''entry_signal'', a_symbol = symbol sg, a_stockName = name sg,
                       a_vcpScore = vcpScore r, a_currentPrice = currentPrice sg,
                       a_scanName = scanConfig_name r, a_etfSymbol = scan_etfSymbol r,
                       a_entryPoints = [(signalType sg, targetPrice sg, sig_confidence sg)]\<rparr>)]
               else [])"
  by (simp add: handleEntrySignal_def Let_def)

lemma stopMonitoring_intervals [simp]:
  "monitoringIntervals (stopMonitoring s x) = AList.delete x (monitoringIntervals s)"
proof (cases "map_of (monitoringIntervals s) x")
  case None
  then have "x \<notin> fst ` set (monitoringIntervals s)" by (simp add: map_of_eq_None_iff)
  with None show ?thesis by (simp add: stopMonitoring_def)
next
  case (Some h)
  then show ?thesis by (simp add: stopMonitoring_def clearInterval_def Let_def)
qed

lemma stopMonitoring_timers:
  "timers (stopMonitoring s x) =
     (case map_of (monitoringIntervals s) x of
        Some h \<Rightarrow> filter (\<lambda>t. handle t \<noteq> h) (timers s)
      | None \<Rightarrow> timers s)"
  by (simp add: stopMonitoring_def clearInterval_def Let_def split: option.splits)

lemma stopMonitoring_frame [simp]:
  "nextHandle (stopMonitoring s x) = nextHandle s"
  "config (stopMonitoring s x) = config s"
  "getStockData (stopMonitoring s x) = getStockData s"
  "clock (stopMonitoring s x) = clock s"
  "db_read_ok (stopMonitoring s x) = db_read_ok s"
  "db_write_ok (stopMonitoring s x) = db_write_ok s"
  "db_stockScan (stopMonitoring s x) = db_stockScan s"
  "sent (stopMonitoring s x) = sent s"
  "email_ok (stopMonitoring s x) = email_ok s"
  "console_errors (stopMonitoring s x) = console_errors s"
  by (simp_all add: stopMonitoring_def clearInterval_def Let_def split: option.splits)

lemma set_timers_stopMonitoring: "set (timers (stopMonitoring s x)) \<subseteq> set (timers s)"
  by (auto simp: stopMonitoring_timers split: option.splits)

lemma watch_entries_stopMonitoring [simp]: "watch_entries (stopMonitoring s x) x = []"
  by (simp add: watch_entries_Nil_conv AList.delete_notin_dom)

lemma live_timers_stopMonitoring:
  assumes "consistent s"
  shows "live_timers (stopMonitoring s x) x = []"
proof -
  have "callback_id t \<noteq> x" if "t \<in> set (timers (stopMonitoring s x))" for t
  proof
    assume cb: "callback_id t = x"
    from that have t: "t \<in> set (timers s)" using set_timers_stopMonitoring by blast
    with assms cb have reg: "map_of (monitoringIntervals s) x = Some (handle t)"
      by (auto simp: consistent_iff)
    with that show False by (simp add: stopMonitoring_timers)
  qed
  then show ?thesis by (auto simp: live_timers_Nil_conv)
qed

lemma consistent_stopMonitoring:
  assumes "consistent s"
  shows "consistent (stopMonitoring s x)"
proof -
  have 1: "map_of (AList.delete x (monitoringIntervals s)) (callback_id t) = Some (handle t)
           \<and> handle t < nextHandle s"
    if "t \<in> set (timers (stopMonitoring s x))" for t
  proof -
    from that have t: "t \<in> set (timers s)" using set_timers_stopMonitoring by blast
    from that live_timers_stopMonitoring[OF assms, of x] have "callback_id t \<noteq> x"
      by (auto simp: live_timers_Nil_conv)
    with t assms show ?thesis by (auto simp: consistent_iff)
  qed
  have 2: "distinct (map handle (timers (stopMonitoring s x)))"
    using assms by (auto simp: consistent_iff stopMonitoring_timers distinct_map_filter split: option.splits)
  have 3: "distinct (map fst (AList.delete x (monitoringIntervals s)))"
    using assms by (simp add: consistent_iff AList.distinct_delete)
  from 1 2 3 show ?thesis by (simp add: consistent_iff)
qed

lemma consistent_handleEntrySignal:
  "consistent s \<Longrightarrow> consistent (handleEntrySignal s r sg)"
  by (simp add: consistent_iff)

lemma rearm_fields:
  "monitoringIntervals (rearm s x) =
     AList.update x (nextHandle s) (AList.delete x (monitoringIntervals s))"
  "timers (rearm s x) =
     timers (stopMonitoring s x) @
       [\<lparr>handle = nextHandle s, callback_id = x,
         period_ms = jmul (jmul (checkInterval (config s)) (Fin 60)) (Fin 1000)\<rparr>]"
  "nextHandle (rearm s x) = nextHandle s + 1"
  "config (rearm s x) = config s"
  "getStockData (rearm s x) = getStockData s"
  "clock (rearm s x) = clock s"
  "db_read_ok (rearm s x) = db_read_ok s"
  "db_write_ok (rearm s x) = db_write_ok s"
  "db_stockScan (rearm s x) = db_stockScan s"
  "sent (rearm s x) = sent s"
  by (simp_all add: rearm_def setInterval_def Let_def)




lemma consistent_rearm:
  assumes "consistent s"
  shows "consistent (rearm s x)"
proof -
  let ?s1 = "stopMonitoring s x"
  from assms have c1: "consistent ?s1" by (rule consistent_stopMonitoring)
  have old: "map_of (monitoringIntervals (rearm s x)) (callback_id t) = Some (handle t)
             \<and> handle t < nextHandle s"
    if "t \<in> set (timers ?s1)" for t
  proof -
    from that live_timers_stopMonitoring[OF assms, of x] have "callback_id t \<noteq> x"
      by (auto simp: live_timers_Nil_conv)
    with that c1 show ?thesis by (auto simp: consistent_iff rearm_fields AList.update_conv')
  qed
  have new: "map_of (monitoringIntervals (rearm s x)) x = Some (nextHandle s)"
    by (simp add: rearm_fields AList.update_conv')
  have d1: "distinct (map handle (timers ?s1))" using c1 by (simp add: consistent_iff)
  have "nextHandle s \<notin> handle ` set (timers ?s1)"
  proof
    assume "nextHandle s \<in> handle ` set (timers ?s1)"
    then obtain t where "t \<in> set (timers ?s1)" "handle t = nextHandle s" by auto
    with old[of t] show False by simp
  qed
  with d1 have d: "distinct (map handle (timers (rearm s x)))" by (simp add: rearm_fields)
  have k: "distinct (map fst (monitoringIntervals (rearm s x)))"
    using c1 by (simp add: rearm_fields consistent_iff AList.distinct_update)
  show ?thesis
    unfolding consistent_iff
  proof (intro conjI ballI)
    fix t assume "t \<in> set (timers (rearm s x))"
    then consider "t \<in> set (timers ?s1)"
      | "t = \<lparr>handle = nextHandle s, callback_id = x,
              period_ms = jmul (jmul (checkInterval (config s)) (Fin 60)) (Fin 1000)\<rparr>"
      by (auto simp: rearm_fields)
    then show "map_of (monitoringIntervals (rearm s x)) (callback_id t) = Some (handle t)"
      using old new by cases auto
  next
    fix t assume "t \<in> set (timers (rearm s x))"
    then consider "t \<in> set (timers ?s1)"
      | "t = \<lparr>handle = nextHandle s, callback_id = x,
              period_ms = jmul (jmul (checkInterval (config s)) (Fin 60)) (Fin 1000)\<rparr>"
      by (auto simp: rearm_fields)
    then show "handle t < nextHandle (rearm s x)"
      using old by cases (auto simp: rearm_fields less_Suc_eq)
  qed (use d k in auto)
qed



lemma check_timeframes_eq:
  "check_timeframes s r x tfs =
     (case first_qualifying s r tfs of
        None \<Rightarrow> s
      | Some sg \<Rightarrow> stopMonitoring (handleEntrySignal s r sg) x)"
  by (induction tfs) (simp_all split: option.splits)



lemma idle_iff:
  "idle s x \<longleftrightarrow> x \<notin> fst ` set (monitoringIntervals s) \<and> x \<notin> callback_id ` set (timers s)"
  by (simp add: idle_def watch_entries_Nil_conv live_timers_Nil_conv)

lemma idle_frame [simp]:
  "idle (s\<lparr>console_errors := e\<rparr>) x = idle s x"
  "idle (s\<lparr>sent := m\<rparr>) x = idle s x"
  "idle (s\<lparr>db_stockScan := d\<rparr>) x = idle s x"
  "idle (s\<lparr>config := c\<rparr>) x = idle s x"
  by (simp_all add: idle_iff)

lemma consistent_frame [simp]:
  "consistent (s\<lparr>console_errors := e\<rparr>) = consistent s"
  "consistent (s\<lparr>sent := m\<rparr>) = consistent s"
  "consistent (s\<lparr>db_stockScan := d\<rparr>) = consistent s"
  "consistent (s\<lparr>config := c\<rparr>) = consistent s"
  by (simp_all add: consistent_iff)

lemma idle_stopMonitoring: "idle s x \<Longrightarrow> idle (stopMonitoring s y) x"
  using set_timers_stopMonitoring[of s y] AList.dom_delete_subset[of y "monitoringIntervals s"]
  by (auto simp: idle_iff)

lemma idle_handleEntrySignal: "idle s x \<Longrightarrow> idle (handleEntrySignal s r sg) x"
  by (simp add: idle_iff)

lemma idle_check_timeframes: "idle s x \<Longrightarrow> idle (check_timeframes s r y tfs) x"
  by (simp add: check_timeframes_eq idle_stopMonitoring idle_handleEntrySignal split: option.splits)

lemma idle_checkForEntrySignals: "idle s x \<Longrightarrow> idle (checkForEntrySignals s y) x"
  by (simp add: checkForEntrySignals_def idle_check_timeframes idle_stopMonitoring
      split: option.splits)

lemma idle_rearm: "idle s x \<Longrightarrow> y \<noteq> x \<Longrightarrow> idle (rearm s y) x"
  using set_timers_stopMonitoring[of s y] AList.dom_delete_subset[of y "monitoringIntervals s"]
  by (auto simp: idle_iff rearm_fields AList.dom_update)

lemma startMonitoring_cases:
  "snd (startMonitoring s y) = checkForEntrySignals (rearm s y) y
   \<or> snd (startMonitoring s y) = s\<lparr>console_errors := console_errors s @ [''Error starting monitoring:'']\<rparr>"
  by (auto simp: startMonitoring_def startMonitoring_try_def rearm_def Let_def
      split: option.splits prod.splits)

lemma idle_startMonitoring: "idle s x \<Longrightarrow> y \<noteq> x \<Longrightarrow> idle (snd (startMonitoring s y)) x"
  using startMonitoring_cases[of s y]
  by (auto simp: idle_checkForEntrySignals idle_rearm)

lemma clearInterval_fold_fields:
  "timers (foldl (\<lambda>s' (k, h). clearInterval h s') s al) =
     filter (\<lambda>t. handle t \<notin> snd ` set al) (timers s)"
  "monitoringIntervals (foldl (\<lambda>s' (k, h). clearInterval h s') s al) = monitoringIntervals s"
  "nextHandle (foldl (\<lambda>s' (k, h). clearInterval h s') s al) = nextHandle s"
  by (induction al arbitrary: s) (auto simp: clearInterval_def intro: filter_cong)

lemma stopAllMonitoring_fields:
  "timers (stopAllMonitoring s) =
     filter (\<lambda>t. handle t \<notin> snd ` set (monitoringIntervals s)) (timers s)"
  "monitoringIntervals (stopAllMonitoring s) = []"
  "nextHandle (stopAllMonitoring s) = nextHandle s"
  by (simp_all add: stopAllMonitoring_def Let_def clearInterval_fold_fields)

lemma idle_stopAllMonitoring: "idle s x \<Longrightarrow> idle (stopAllMonitoring s) x"
  by (auto simp: idle_iff stopAllMonitoring_fields)

lemma consistent_new: "consistent (new_EntryMonitor p rows market)"
  by (simp add: consistent_def new_EntryMonitor_def)

lemma consistent_checkForEntrySignals: "consistent s \<Longrightarrow> consistent (checkForEntrySignals s y)"
  by (simp add: checkForEntrySignals_def check_timeframes_eq consistent_stopMonitoring
      consistent_handleEntrySignal split: option.splits)

lemma consistent_startMonitoring: "consistent s \<Longrightarrow> consistent (snd (startMonitoring s y))"
  using startMonitoring_cases[of s y]
  by (auto simp: consistent_checkForEntrySignals consistent_rearm)

lemma consistent_stopAllMonitoring:
  assumes "consistent s"
  shows "consistent (stopAllMonitoring s)"
proof -
  have "handle t \<in> snd ` set (monitoringIntervals s)" if "t \<in> set (timers s)" for t
  proof -
    from assms that have "map_of (monitoringIntervals s) (callback_id t) = Some (handle t)"
      by (simp add: consistent_iff)
    then have "(callback_id t, handle t) \<in> set (monitoringIntervals s)" by (rule map_of_SomeD)
    then show ?thesis by force
  qed
  then have "timers (stopAllMonitoring s) = []"
    by (simp add: stopAllMonitoring_fields filter_empty_conv)
  then show ?thesis by (simp add: consistent_iff stopAllMonitoring_fields)
qed

subsection \<open>Tasks\<close>

text \<open>The first step of \<open>startMonitoring\<close>: the instrument is re-armed, or the error is
  logged.\<close>

lemma resume_start:
  "resume s (StartAwaitRow x) =
     (if db_read_ok s \<and> (case db_stockScan s x of None \<Rightarrow> False | Some r \<Rightarrow> hasVcpPattern r)
      then (rearm s x, Some (AwaitRow x))
      else (s\<lparr>console_errors := console_errors s @ [''Error starting monitoring:'']\<rparr>, None))"
  by (simp add: rearm_def Let_def split: option.splits prod.splits)

text \<open>A check enters \<open>handleEntrySignal\<close>, and waits for the update of the row, exactly when
  the timeframe it has asked for gives a signal that reaches \<open>minConfidence\<close>.\<close>

lemma resume_qualifying:
  "resume s (AwaitData x r (tf # tfs)) = (s', Some (AwaitUpdate x' r' sg)) \<longleftrightarrow>
     s' = s \<and> x' = x \<and> r' = r \<and> analyzeTimeframe s r tf = Some sg
     \<and> jge (sig_confidence sg) (minConfidence (config s))"
  by (auto split: option.splits)

lemma resume_found:
  assumes "resume s t = (s', Some (AwaitUpdate x r sg))"
  shows "\<exists>tf tfs. t = AwaitData x r (tf # tfs) \<and> s' = s \<and> analyzeTimeframe s r tf = Some sg
           \<and> jge (sig_confidence sg) (minConfidence (config s))"
  using assms
  by (cases "(s, t)" rule: resume.cases)
     (auto simp: Let_def split: if_splits option.splits prod.splits)

text \<open>A task that is suspended again works for the same instrument, and is past the first
  await of \<open>startMonitoring\<close>.\<close>

lemma resume_task:
  assumes "resume s t = (s', Some t')"
  shows "task_id t' = task_id t \<and> t' \<noteq> StartAwaitRow y"
  using assms
  by (cases "(s, t)" rule: resume.cases)
     (auto simp: Let_def split: if_splits option.splits prod.splits)

lemma consistent_resume:
  assumes "consistent s"
  shows "consistent (fst (resume s t))"
proof (cases t)
  case (StartAwaitRow x)
  with assms show ?thesis
    by (simp add: resume_start consistent_rearm del: resume.simps(1))
next
  case (AwaitRow x)
  with assms show ?thesis
    by (simp add: consistent_stopMonitoring split: option.splits)
next
  case (AwaitData x r tfs)
  with assms show ?thesis
    by (cases tfs) (simp_all split: option.splits)
next
  case (AwaitUpdate x r sg)
  with assms show ?thesis
    by (simp add: consistent_stopMonitoring Let_def)
next
  case (AwaitEmail x)
  with assms show ?thesis
    by (simp add: consistent_stopMonitoring)
qed

lemma idle_resume:
  assumes "idle s x" and "t \<noteq> StartAwaitRow x"
  shows "idle (fst (resume s t)) x"
proof (cases t)
  case (StartAwaitRow y)
  with assms show ?thesis
    by (simp add: resume_start idle_rearm del: resume.simps(1))
next
  case (AwaitRow y)
  with assms show ?thesis
    by (simp add: idle_stopMonitoring split: option.splits)
next
  case (AwaitData y r tfs)
  with assms show ?thesis
    by (cases tfs) (simp_all split: option.splits)
next
  case (AwaitUpdate y r sg)
  with assms show ?thesis
    by (simp add: idle_stopMonitoring Let_def)
next
  case (AwaitEmail y)
  with assms show ?thesis
    by (simp add: idle_stopMonitoring)
qed

text \<open>A task that runs to its end without interruption does what the method does.\<close>

lemma finish_AwaitEmail:
  "finish s (AwaitEmail x) =
     stopMonitoring
       (if email_ok s then s
        else s\<lparr>console_errors := console_errors s @ [''Error handling entry signal:'']\<rparr>) x"
  by (subst finish.simps) simp

lemma finish_AwaitUpdate:
  "finish s (AwaitUpdate x r sg) = stopMonitoring (handleEntrySignal s r sg) x"
  by (subst finish.simps) (simp add: handleEntrySignal_def Let_def finish_AwaitEmail)

lemma finish_AwaitData: "finish s (AwaitData x r tfs) = check_timeframes s r x tfs"
proof (induction tfs)
  case Nil
  show ?case by (subst finish.simps) simp
next
  case (Cons tf tfs)
  have last: "check_timeframes s r x tfs = s" if "tfs = []"
    using that by simp
  show ?case
    by (subst finish.simps)
       (auto simp: finish_AwaitUpdate Cons last split: option.splits)
qed

lemma finish_AwaitRow: "finish s (AwaitRow x) = checkForEntrySignals s x"
  by (subst finish.simps)
     (auto simp: checkForEntrySignals_def finish_AwaitData split: option.splits)

lemma finish_StartAwaitRow: "finish s (StartAwaitRow x) = snd (startMonitoring s x)"
  by (subst finish.simps)
     (auto simp: startMonitoring_def startMonitoring_try_def finish_AwaitRow Let_def
        split: option.splits prod.splits)

subsection \<open>Events\<close>

lemma consistent_stop_each: "consistent s \<Longrightarrow> consistent (foldl stopMonitoring s ids)"
  by (induction ids arbitrary: s) (simp_all add: consistent_stopMonitoring)

lemma idle_stop_each: "idle s x \<Longrightarrow> idle (foldl stopMonitoring s ids) x"
  by (induction ids arbitrary: s) (simp_all add: idle_stopMonitoring)

lemma consistent_updateConfig: "consistent s \<Longrightarrow> consistent (fst (updateConfig s p))"
  by (simp add: updateConfig_def Let_def consistent_stop_each)

lemma idle_updateConfig: "idle s x \<Longrightarrow> idle (fst (updateConfig s p)) x"
  by (simp add: updateConfig_def Let_def idle_stop_each)

lemma snd_updateConfig: "snd (updateConfig s p) = map fst (monitoringIntervals s)"
  by (simp add: updateConfig_def Let_def)

text \<open>Every state that the monitor reaches from its construction is consistent, however
  the calls, the timers and the tasks in flight interleave.\<close>

lemma consistent_step: "consistent s \<Longrightarrow> consistent (fst (step (s, ts) e))"
proof (cases e)
  case (Resume i)
  assume c: "consistent s"
  show ?thesis
  proof (cases "i < length ts")
    case True
    from consistent_resume [OF c, of "ts ! i"] Resume True show ?thesis
      by (cases "resume s (ts ! i)") (auto split: option.splits)
  next
    case False
    with c Resume show ?thesis by simp
  qed
next
  case (Environment rows rd wr market t mail)
  assume "consistent s"
  with Environment show ?thesis by (simp add: consistent_iff)
qed (auto simp: consistent_stopMonitoring consistent_stopAllMonitoring consistent_updateConfig
      split: option.splits)

lemma consistent_steps: "consistent (fst rt) \<Longrightarrow> consistent (fst (steps rt es))"
  unfolding steps_def
proof (induction es arbitrary: rt)
  case Nil
  then show ?case by simp
next
  case (Cons e es)
  from Cons.prems consistent_step [of "fst rt" "snd rt" e]
  have "consistent (fst (step rt e))" by simp
  with Cons.IH show ?case by simp
qed

lemma consistent_reachable:
  "consistent (fst (steps (new_EntryMonitor p rows market, []) es))"
  by (rule consistent_steps) (simp add: consistent_new)

text \<open>While an instrument is idle and no call of \<open>startMonitoring\<close> for it is pending or
  made, it stays idle, no such call becomes pending, and no task is added for it.\<close>

lemma filter_remove_nth:
  "i < length ts \<Longrightarrow> length (filter P (take i ts @ drop (Suc i) ts)) \<le> length (filter P ts)"
proof -
  assume "i < length ts"
  then have "ts = take i ts @ ts ! i # drop (Suc i) ts" by (rule id_take_nth_drop)
  then have "filter P ts = filter P (take i ts) @ filter P (ts ! i # drop (Suc i) ts)"
    by (metis filter_append)
  then show ?thesis by simp
qed

lemma filter_update_nth:
  assumes "i < length ts" and "P t' = P (ts ! i)"
  shows "length (filter P (ts[i := t'])) = length (filter P ts)"
proof -
  from assms(1) have a: "ts = take i ts @ ts ! i # drop (Suc i) ts" by (rule id_take_nth_drop)
  from assms(1) have b: "ts[i := t'] = take i ts @ t' # drop (Suc i) ts"
    by (rule upd_conv_take_nth_drop)
  have "length (filter P ts) = length (filter P (take i ts @ ts ! i # drop (Suc i) ts))"
    using a by simp
  with assms(2) show ?thesis unfolding b by simp
qed

lemma set_remove_nth: "set (take i ts @ drop (Suc i) ts) \<subseteq> set ts"
  using set_take_subset [of i ts] set_drop_subset [of "Suc i" ts] by auto

lemma step_idle:
  assumes "idle s x" and "StartAwaitRow x \<notin> set ts" and "e \<noteq> StartMonitoring x"
  shows "idle (fst (step (s, ts) e)) x \<and> StartAwaitRow x \<notin> set (snd (step (s, ts) e))
     \<and> length (tasks_for (step (s, ts) e) x) \<le> length (tasks_for (s, ts) x)"
proof (cases e)
  case (StartMonitoring y)
  with assms show ?thesis by (auto simp: tasks_for_def)
next
  case (StopMonitoring y)
  with assms show ?thesis by (simp add: tasks_for_def idle_stopMonitoring)
next
  case StopAllMonitoring
  with assms show ?thesis by (simp add: tasks_for_def idle_stopAllMonitoring)
next
  case (UpdateConfig p)
  from assms(1) have "x \<notin> fst ` set (monitoringIntervals s)" by (simp add: idle_iff)
  then have "filter (\<lambda>t. task_id t = x) (map StartAwaitRow (map fst (monitoringIntervals s))) = []"
    by (auto simp: filter_empty_conv)
  with UpdateConfig assms \<open>x \<notin> fst ` set (monitoringIntervals s)\<close> show ?thesis
    by (auto simp: tasks_for_def idle_updateConfig snd_updateConfig)
next
  case (Fire h)
  show ?thesis
  proof (cases "find (\<lambda>t. handle t = h) (timers s)")
    case None
    with Fire assms show ?thesis by simp
  next
    case (Some t)
    then have "t \<in> set (timers s)" by (auto simp: find_Some_iff)
    with assms(1) have "callback_id t \<noteq> x" by (auto simp: idle_iff)
    with Fire Some assms show ?thesis by (simp add: tasks_for_def)
  qed
next
  case (Resume i)
  show ?thesis
  proof (cases "i < length ts")
    case False
    with Resume assms show ?thesis by simp
  next
    case True
    with assms(2) have ne: "ts ! i \<noteq> StartAwaitRow x" by (metis nth_mem)
    obtain s' r where res: "resume s (ts ! i) = (s', r)" by (cases "resume s (ts ! i)")
    from idle_resume [OF assms(1) ne] res have i': "idle s' x" by simp
    show ?thesis
    proof (cases r)
      case None
      from assms(2) set_remove_nth [of i ts]
      have "StartAwaitRow x \<notin> set (take i ts @ drop (Suc i) ts)" by blast
      with None res Resume True i' filter_remove_nth [OF True, of "\<lambda>t. task_id t = x"]
      show ?thesis by (simp add: tasks_for_def)
    next
      case (Some t')
      from resume_task [of s "ts ! i" s' t' x] res Some
      have t': "task_id t' = task_id (ts ! i)" "t' \<noteq> StartAwaitRow x" by simp_all
      from assms(2) t'(2) set_update_subset_insert [of ts i t']
      have "StartAwaitRow x \<notin> set (ts[i := t'])" by blast
      moreover from t'(1) filter_update_nth [OF True, of "\<lambda>t. task_id t = x" t']
      have "length (filter (\<lambda>t. task_id t = x) (ts[i := t'])) =
          length (filter (\<lambda>t. task_id t = x) ts)" by simp
      ultimately show ?thesis using Some res Resume True i' by (simp add: tasks_for_def)
    qed
  qed
next
  case (Environment rows rd wr market t mail)
  with assms show ?thesis by (simp add: tasks_for_def idle_iff)
qed

lemma steps_idle:
  assumes "idle (fst rt) x" and "StartAwaitRow x \<notin> set (snd rt)" and "StartMonitoring x \<notin> set es"
  shows "idle (fst (steps rt es)) x
     \<and> length (tasks_for (steps rt es) x) \<le> length (tasks_for rt x)"
  using assms unfolding steps_def
proof (induction es arbitrary: rt)
  case Nil
  then show ?case by simp
next
  case (Cons e es)
  from Cons.prems have e: "e \<noteq> StartMonitoring x" and es: "StartMonitoring x \<notin> set es" by auto
  from step_idle [OF _ _ e, of "fst rt" "snd rt"] Cons.prems(1,2)
  have 1: "idle (fst (step rt e)) x" and 2: "StartAwaitRow x \<notin> set (snd (step rt e))"
    and 3: "length (tasks_for (step rt e) x) \<le> length (tasks_for rt x)" by simp_all
  from Cons.IH [OF 1 2 es] 3 show ?case by simp
qed

subsection \<open>The end of a check that has found a signal\<close>

lemma idle_stopped:
  assumes "consistent s"
  shows "idle (stopMonitoring s x) x"
  using live_timers_stopMonitoring [OF assms, of x] by (simp add: idle_def)

text \<open>
  C3. A check that finds a signal reaching \<open>minConfidence\<close> in the market data it has
  waited for goes on to the update of the instrument's row, and waits for it. Resumed after
  the update, it hands one alert to the email service if the update succeeded and email
  alerts are enabled, and waits for the email service. In every other case, and when it is
  resumed after the email service, it hands over nothing and ends the monitoring: the
  instrument's \<open>WatchEntry\<close> is removed and its timer cancelled. From then on, whatever
  happens, short of a call of \<open>startMonitoring\<close> for the instrument made or still
  pending, the instrument has neither entry nor timer and no check is started for it: the
  tasks that work for it are those that were in flight already, and they only become fewer.
\<close>

theorem qualifying_check_ends_monitoring:
  assumes "consistent s" and "i < length ts"
    and "ts ! i = AwaitData x r (tf # tfs) \<and> analyzeTimeframe s r tf = Some sg
           \<and> jge (sig_confidence sg) (minConfidence (config s))
         \<or> ts ! i = AwaitUpdate x r sg \<or> ts ! i = AwaitEmail x"
    and "StartAwaitRow x \<notin> set ts" and "StartMonitoring x \<notin> set es"
  shows "if ts ! i = AwaitData x r (tf # tfs)
         then step (s, ts) (Resume i) = (s, ts[i := AwaitUpdate x r sg])
         else if ts ! i = AwaitUpdate x r sg \<and> db_write_ok s \<and> db_stockScan s (ss_id r) \<noteq> None
            \<and> enableEmailAlerts (config s)
         then sent (fst (step (s, ts) (Resume i))) =
                sent s @ [(scanConfig_userId r,
                           \<lparr>a_type = ''entry_signal'', a_symbol = symbol sg, a_stockName = name sg,
                            a_vcpScore = vcpScore r, a_currentPrice = currentPrice sg,
                            a_scanName = scanConfig_name r, a_etfSymbol = scan_etfSymbol r,
                            a_entryPoints = [(signalType sg, targetPrice sg, sig_confidence sg)]\<rparr>)]
              \<and> snd (step (s, ts) (Resume i)) = ts[i := AwaitEmail x]
         else sent (fst (step (s, ts) (Resume i))) = sent s
              \<and> snd (step (s, ts) (Resume i)) = take i ts @ drop (Suc i) ts
              \<and> watch_entries (fst (step (s, ts) (Resume i))) x = []
              \<and> live_timers (fst (step (s, ts) (Resume i))) x = []
              \<and> watch_entries (fst (steps (step (s, ts) (Resume i)) es)) x = []
              \<and> live_timers (fst (steps (step (s, ts) (Resume i)) es)) x = []
              \<and> length (tasks_for (steps (step (s, ts) (Resume i)) es) x)
                  \<le> length (tasks_for (step (s, ts) (Resume i)) x)"
proof (cases "ts ! i = AwaitData x r (tf # tfs)")
  case True
  with assms(3) have "analyzeTimeframe s r tf = Some sg"
    and "jge (sig_confidence sg) (minConfidence (config s))" by simp_all
  with True assms(2) show ?thesis by simp
next
  case data: False
  with assms(3) have handling: "ts ! i = AwaitUpdate x r sg \<or> ts ! i = AwaitEmail x" by simp
  show ?thesis
  proof (cases "ts ! i = AwaitUpdate x r sg \<and> db_write_ok s \<and> db_stockScan s (ss_id r) \<noteq> None
            \<and> enableEmailAlerts (config s)")
    case True
    with assms(2) show ?thesis by (simp add: Let_def)
  next
    case False
    have "\<exists>s0. consistent s0 \<and> sent s0 = sent s \<and> resume s (ts ! i) = (stopMonitoring s0 x, None)"
      using handling
    proof
      assume u: "ts ! i = AwaitUpdate x r sg"
      show ?thesis
      proof (cases "\<not> db_write_ok s \<or> db_stockScan s (ss_id r) = None")
        case True
        with u assms(1) show ?thesis
          by (intro exI [of _ "s\<lparr>console_errors :=
                console_errors s @ [''Error handling entry signal:'']\<rparr>"])
             simp
      next
        case ok: False
        then obtain y where y: "db_stockScan s (ss_id r) = Some y" and w: "db_write_ok s" by auto
        from False u y w have off: "\<not> enableEmailAlerts (config s)" by simp
        from y w off u assms(1) show ?thesis
          by (intro exI [of _ "s\<lparr>db_stockScan := (db_stockScan s)(ss_id r \<mapsto>
                           (the (db_stockScan s (ss_id r)))
                             \<lparr>entrySignal := True, lastPrice := currentPrice sg,
                              ss_volume := jmul (currentPrice sg) (Fin 1000000)\<rparr>)\<rparr>"])
             (simp add: Let_def)
      qed
    next
      assume m: "ts ! i = AwaitEmail x"
      with assms(1) show ?thesis
        by (intro exI [of _ "if email_ok s then s
              else s\<lparr>console_errors := console_errors s @ [''Error handling entry signal:'']\<rparr>"])
           simp
    qed
    then obtain s0 where s0: "consistent s0" "sent s0 = sent s"
      and res: "resume s (ts ! i) = (stopMonitoring s0 x, None)" by blast
    from res assms(2)
    have st: "step (s, ts) (Resume i) = (stopMonitoring s0 x, take i ts @ drop (Suc i) ts)"
      by simp
    from s0(1) have idle: "idle (stopMonitoring s0 x) x" by (rule idle_stopped)
    from assms(4) set_remove_nth [of i ts]
    have pending: "StartAwaitRow x \<notin> set (take i ts @ drop (Suc i) ts)" by blast
    from steps_idle [of "step (s, ts) (Resume i)" x es] idle pending assms(5)
    have after: "idle (fst (steps (step (s, ts) (Resume i)) es)) x
       \<and> length (tasks_for (steps (step (s, ts) (Resume i)) es) x)
           \<le> length (tasks_for (step (s, ts) (Resume i)) x)"
      unfolding st by simp
    from data False idle after s0(2) show ?thesis unfolding st by (simp add: idle_def)
  qed
qed

lemma awaiting_update_step:
  "awaiting_update = step (fst awaiting_data, snd awaiting_data) (Resume 0)"
  by (simp add: awaiting_update_def awaiting_data_def steps_def)

lemma awaiting_email_step: "awaiting_email = step (fst awaiting_update, snd awaiting_update) (Resume 0)"
  by (simp add: awaiting_email_def steps_def)

theorem qualifying_check_ends_monitoring_witness:
  "consistent (fst awaiting_data) \<and> (0::nat) < length (snd awaiting_data)
   \<and> snd awaiting_data = [AwaitData ''scan1'' acme [''1h'', ''4h'']]
   \<and> analyzeTimeframe (fst awaiting_data) acme ''1h'' = Some spike_signal
   \<and> sig_confidence spike_signal = Fin 80
   \<and> minConfidence (config (fst awaiting_data)) = Fin 70
   \<and> jge (sig_confidence spike_signal) (minConfidence (config (fst awaiting_data)))
   \<and> StartMonitoring ''scan1'' \<notin> set [Fire 0, UpdateConfig alerts_off, Fire 1]
   \<and> awaiting_update = (fst awaiting_data, [AwaitUpdate ''scan1'' acme spike_signal])
   \<and> consistent (fst awaiting_update) \<and> (0::nat) < length (snd awaiting_update)
   \<and> sent (fst awaiting_update) = []
   \<and> map fst (sent (fst awaiting_email)) = [''user1'']
   \<and> snd awaiting_email = [AwaitEmail ''scan1'']
   \<and> watch_entries (fst awaiting_email) ''scan1'' = [(''scan1'', 0)]
   \<and> consistent (fst awaiting_email) \<and> (0::nat) < length (snd awaiting_email)
   \<and> map fst (sent (fst (step awaiting_email (Resume 0)))) = [''user1'']
   \<and> snd (step awaiting_email (Resume 0)) = []
   \<and> watch_entries (fst (step awaiting_email (Resume 0))) ''scan1'' = []
   \<and> live_timers (fst (step awaiting_email (Resume 0))) ''scan1'' = []
   \<and> watch_entries (fst (steps (step awaiting_email (Resume 0))
        [Fire 0, UpdateConfig alerts_off, Fire 1])) ''scan1'' = []
   \<and> live_timers (fst (steps (step awaiting_email (Resume 0))
        [Fire 0, UpdateConfig alerts_off, Fire 1])) ''scan1'' = []
   \<and> tasks_for (steps (step awaiting_email (Resume 0))
        [Fire 0, UpdateConfig alerts_off, Fire 1]) ''scan1'' = []"
proof -
  let ?es = "[Fire 0, UpdateConfig alerts_off, Fire 1]"
  have n: "StartMonitoring ''scan1'' \<notin> set ?es" by simp
  have c0: "consistent (fst awaiting_data)"
    unfolding awaiting_data_def by (rule consistent_reachable)
  have t0: "snd awaiting_data = [AwaitData ''scan1'' acme [''1h'', ''4h'']]" by code_simp
  have q1: "analyzeTimeframe (fst awaiting_data) acme ''1h'' = Some spike_signal" by code_simp
  have e2: "sig_confidence spike_signal = Fin 80" by code_simp
  have e3: "minConfidence (config (fst awaiting_data)) = Fin 70" by code_simp
  have q2: "jge (sig_confidence spike_signal) (minConfidence (config (fst awaiting_data)))"
    by (simp add: e2 e3 jge_def)
  have l0: "(0::nat) < length (snd awaiting_data)" by (simp add: t0)
  have d0: "snd awaiting_data ! 0 = AwaitData ''scan1'' acme (''1h'' # [''4h''])
        \<and> analyzeTimeframe (fst awaiting_data) acme ''1h'' = Some spike_signal
        \<and> jge (sig_confidence spike_signal) (minConfidence (config (fst awaiting_data)))
      \<or> snd awaiting_data ! 0 = AwaitUpdate ''scan1'' acme spike_signal
      \<or> snd awaiting_data ! 0 = AwaitEmail ''scan1''"
    using q1 q2 by (simp add: t0)
  have p0: "StartAwaitRow ''scan1'' \<notin> set (snd awaiting_data)" by (simp add: t0)
  from qualifying_check_ends_monitoring [OF c0 l0 d0 p0 n, unfolded awaiting_update_step [symmetric]]
  have found: "awaiting_update = (fst awaiting_data, [AwaitUpdate ''scan1'' acme spike_signal])"
    by (simp add: t0)
  have t1: "snd awaiting_update = [AwaitUpdate ''scan1'' acme spike_signal]"
    by (subst found) (rule snd_conv)
  have c1: "consistent (fst awaiting_update)"
    unfolding awaiting_update_def by (rule consistent_reachable)
  have g1: "db_write_ok (fst awaiting_update)" by code_simp
  have g2: "db_stockScan (fst awaiting_update) (ss_id acme) \<noteq> None" by code_simp
  have g3: "enableEmailAlerts (config (fst awaiting_update))" by code_simp
  have e1: "sent (fst awaiting_update) = []" by code_simp
  have e4: "watch_entries (fst awaiting_email) ''scan1'' = [(''scan1'', 0)]" by code_simp
  have l1: "(0::nat) < length (snd awaiting_update)" by (simp add: t1)
  have d1: "snd awaiting_update ! 0 = AwaitData ''scan1'' acme (''1h'' # [''4h''])
        \<and> analyzeTimeframe (fst awaiting_update) acme ''1h'' = Some spike_signal
        \<and> jge (sig_confidence spike_signal) (minConfidence (config (fst awaiting_update)))
      \<or> snd awaiting_update ! 0 = AwaitUpdate ''scan1'' acme spike_signal
      \<or> snd awaiting_update ! 0 = AwaitEmail ''scan1''" by (simp add: t1)
  have p1: "StartAwaitRow ''scan1'' \<notin> set (snd awaiting_update)" by (simp add: t1)
  from qualifying_check_ends_monitoring [OF c1 l1 d1 p1 n, unfolded awaiting_email_step [symmetric]]
    g1 g2 g3 e1
  have first: "map fst (sent (fst awaiting_email)) = [''user1'']"
    "snd awaiting_email = [AwaitEmail ''scan1'']"
    by (simp_all add: t1 acme_def)
  have c2: "consistent (fst awaiting_email)"
    unfolding awaiting_email_def awaiting_update_def steps_def foldl_append [symmetric]
    unfolding steps_def [symmetric] by (rule consistent_reachable)
  have l2: "(0::nat) < length (snd awaiting_email)" by (simp add: first)
  have d2: "snd awaiting_email ! 0 = AwaitData ''scan1'' acme (''1h'' # [''4h''])
        \<and> analyzeTimeframe (fst awaiting_email) acme ''1h'' = Some spike_signal
        \<and> jge (sig_confidence spike_signal) (minConfidence (config (fst awaiting_email)))
      \<or> snd awaiting_email ! 0 = AwaitUpdate ''scan1'' acme spike_signal
      \<or> snd awaiting_email ! 0 = AwaitEmail ''scan1''" by (simp add: first)
  have p2: "StartAwaitRow ''scan1'' \<notin> set (snd awaiting_email)" by (simp add: first)
  from qualifying_check_ends_monitoring [OF c2 l2 d2 p2 n, unfolded prod.collapse]
  have second: "sent (fst (step awaiting_email (Resume 0))) = sent (fst awaiting_email)"
    "snd (step awaiting_email (Resume 0)) = []"
    "watch_entries (fst (step awaiting_email (Resume 0))) ''scan1'' = []"
    "live_timers (fst (step awaiting_email (Resume 0))) ''scan1'' = []"
    "watch_entries (fst (steps (step awaiting_email (Resume 0)) ?es)) ''scan1'' = []"
    "live_timers (fst (steps (step awaiting_email (Resume 0)) ?es)) ''scan1'' = []"
    "length (tasks_for (steps (step awaiting_email (Resume 0)) ?es) ''scan1'')
       \<le> length (tasks_for (step awaiting_email (Resume 0)) ''scan1'')"
    by (simp_all add: first)
  from second(2) have "tasks_for (step awaiting_email (Resume 0)) ''scan1'' = []"
    by (simp add: tasks_for_def)
  with second(7) have third: "tasks_for (steps (step awaiting_email (Resume 0)) ?es) ''scan1'' = []"
    by simp
  have a: "consistent (fst awaiting_data) \<and> (0::nat) < length (snd awaiting_data)
   \<and> snd awaiting_data = [AwaitData ''scan1'' acme [''1h'', ''4h'']]
   \<and> analyzeTimeframe (fst awaiting_data) acme ''1h'' = Some spike_signal
   \<and> sig_confidence spike_signal = Fin 80
   \<and> minConfidence (config (fst awaiting_data)) = Fin 70
   \<and> jge (sig_confidence spike_signal) (minConfidence (config (fst awaiting_data)))
   \<and> StartMonitoring ''scan1'' \<notin> set [Fire 0, UpdateConfig alerts_off, Fire 1]
   \<and> awaiting_update = (fst awaiting_data, [AwaitUpdate ''scan1'' acme spike_signal])"
    using c0 l0 t0 q1 e2 e3 q2 n found by (intro conjI)
  have b: "consistent (fst awaiting_update) \<and> (0::nat) < length (snd awaiting_update)
   \<and> sent (fst awaiting_update) = []
   \<and> map fst (sent (fst awaiting_email)) = [''user1'']
   \<and> snd awaiting_email = [AwaitEmail ''scan1'']
   \<and> watch_entries (fst awaiting_email) ''scan1'' = [(''scan1'', 0)]
   \<and> consistent (fst awaiting_email) \<and> (0::nat) < length (snd awaiting_email)"
    using c1 l1 e1 first e4 c2 l2 by (intro conjI)
  have c: "map fst (sent (fst (step awaiting_email (Resume 0)))) = [''user1'']"
    by (simp add: second(1) first)
  from a b c second(2-6) third show ?thesis by (intro conjI) (elim conjE, assumption)+
qed

text \<open>The number of alerts in one watch can be none or more than one. With email alerts
  switched off, the check that has found the signal of confidence 80 (the required
  confidence is 70) ends the monitoring of \<open>scan1\<close> without an alert. And with the alerts
  on, when the timer fires a second time while its first check is still waiting for its row,
  both checks find the signal and each hands over an alert before the first of them ends
  the monitoring.\<close>

theorem alerts_none_or_several:
  "map found_confidence (snd quiet_awaiting_update) = [Some (Fin 80)]
   \<and> minConfidence (config (fst quiet_awaiting_update)) = Fin 70
   \<and> watch_entries (fst quiet_awaiting_update) ''scan1'' = [(''scan1'', 0)]
   \<and> snd (steps quiet_awaiting_update [Resume 0]) = []
   \<and> watch_entries (fst (steps quiet_awaiting_update [Resume 0])) ''scan1'' = []
   \<and> sent (fst (steps quiet_awaiting_update [Resume 0])) = []
   \<and> map fst (sent (fst (steps (new_EntryMonitor no_change acme_rows flat_market, []) overlapping)))
       = [''user1'', ''user1'']
   \<and> snd (steps (new_EntryMonitor no_change acme_rows flat_market, []) overlapping) = []
   \<and> watch_entries (fst (steps (new_EntryMonitor no_change acme_rows flat_market, []) overlapping))
        ''scan1'' = []"
proof -
  have a: "map found_confidence (snd quiet_awaiting_update) = [Some (Fin 80)]" by code_simp
  have b: "minConfidence (config (fst quiet_awaiting_update)) = Fin 70" by code_simp
  have c: "watch_entries (fst quiet_awaiting_update) ''scan1'' = [(''scan1'', 0)]" by code_simp
  have d: "snd (steps quiet_awaiting_update [Resume 0]) = []" by code_simp
  have e: "watch_entries (fst (steps quiet_awaiting_update [Resume 0])) ''scan1'' = []" by code_simp
  have f: "sent (fst (steps quiet_awaiting_update [Resume 0])) = []" by code_simp
  have g: "map fst (sent (fst (steps (new_EntryMonitor no_change acme_rows flat_market, [])
      overlapping))) = [''user1'', ''user1'']" by code_simp
  have h: "snd (steps (new_EntryMonitor no_change acme_rows flat_market, []) overlapping) = []"
    by code_simp
  have i: "watch_entries (fst (steps (new_EntryMonitor no_change acme_rows flat_market, [])
      overlapping)) ''scan1'' = []" by code_simp
  from a b c d e f g h i show ?thesis by simp
qed

text \<open>The monitor of the examples, as a call and as a sequence of events.\<close>

lemma launch_watching:
  "monitoringIntervals (fst (steps (new_EntryMonitor no_change acme_rows flat_market, []) launch))
     = monitoringIntervals watching"
  "timers (fst (steps (new_EntryMonitor no_change acme_rows flat_market, []) launch))
     = timers watching"
  "nextHandle (fst (steps (new_EntryMonitor no_change acme_rows flat_market, []) launch))
     = nextHandle watching"
  "snd (steps (new_EntryMonitor no_change acme_rows flat_market, []) launch) = []"
  by code_simp+




text \<open>
  C5. \<open>startMonitoring\<close> for an instrument that has no stored row, or whose row records no
  pattern, catches its own error: the caller sees the call complete, the error is logged,
  and nothing else changes; in particular no \<open>WatchEntry\<close> and no timer is created.
\<close>

theorem startMonitoring_not_eligible:
  assumes "case db_stockScan s x of None \<Rightarrow> True | Some r \<Rightarrow> \<not> hasVcpPattern r"
  shows "startMonitoring s x =
           (Fulfilled, s\<lparr>console_errors := console_errors s @ [''Error starting monitoring:'']\<rparr>)
         \<and> monitoringIntervals (snd (startMonitoring s x)) = monitoringIntervals s
         \<and> timers (snd (startMonitoring s x)) = timers s"
proof -
  have "startMonitoring_try s x = Inl ''database read failed''
        \<or> startMonitoring_try s x = Inl ''Stock scan not found or no VCP pattern detected''"
    using assms by (simp add: startMonitoring_try_def split: option.splits)
  then have "startMonitoring s x =
      (Fulfilled, s\<lparr>console_errors := console_errors s @ [''Error starting monitoring:'']\<rparr>)"
    by (auto simp: startMonitoring_def)
  then show ?thesis by simp
qed

theorem startMonitoring_not_eligible_witness:
  "(case db_stockScan watching ''scan2'' of None \<Rightarrow> True | Some r \<Rightarrow> \<not> hasVcpPattern r)
   \<and> db_stockScan watching ''scan2'' = None
   \<and> startMonitoring watching ''scan2'' =
       (Fulfilled, watching\<lparr>console_errors := console_errors watching @ [''Error starting monitoring:'']\<rparr>)
   \<and> (case db_stockScan watching ''scan3'' of None \<Rightarrow> True | Some r \<Rightarrow> \<not> hasVcpPattern r)
   \<and> map_option hasVcpPattern (db_stockScan watching ''scan3'') = Some False
   \<and> startMonitoring watching ''scan3'' =
       (Fulfilled, watching\<lparr>console_errors := console_errors watching @ [''Error starting monitoring:'']\<rparr>)
   \<and> monitoringIntervals (snd (startMonitoring watching ''scan3'')) = [(''scan1'', 0)]
   \<and> timers (snd (startMonitoring watching ''scan3''))
       = [\<lparr>handle = 0, callback_id = ''scan1'', period_ms = Fin 900000\<rparr>]"
proof -
  have h2: "(case db_stockScan watching ''scan2'' of None \<Rightarrow> True | Some r \<Rightarrow> \<not> hasVcpPattern r)"
    by code_simp
  have h3: "(case db_stockScan watching ''scan3'' of None \<Rightarrow> True | Some r \<Rightarrow> \<not> hasVcpPattern r)"
    by code_simp
  have e2: "db_stockScan watching ''scan2'' = None" by code_simp
  have e3: "map_option hasVcpPattern (db_stockScan watching ''scan3'') = Some False" by code_simp
  have e4: "monitoringIntervals watching = [(''scan1'', 0)]" by code_simp
  have e5: "timers watching = [\<lparr>handle = 0, callback_id = ''scan1'', period_ms = Fin 900000\<rparr>]"
    by code_simp
  from h2 h3 e2 e3 startMonitoring_not_eligible [OF h2] startMonitoring_not_eligible [OF h3]
  show ?thesis by (simp add: e4 e5)
qed

text \<open>The call for an instrument without a stored row is not rejected.\<close>

theorem startMonitoring_swallows_error:
  "db_stockScan watching ''scan2'' = None \<and> fst (startMonitoring watching ''scan2'') = Fulfilled"
  by code_simp

end
